theory Spec2Isabelle
  imports Complex_Main "HOL-Library.Multiset" "HOL-Library.Log_Nat"
begin

section \<open>Python values and numpy arrays\<close>

text \<open>
  The module under verification is \<^verbatim>\<open>data_generator.py\<close>: the class
  \<^verbatim>\<open>DataGenerator\<close> with its methods \<^verbatim>\<open>generate_realistic_synthetic\<close>,
  \<^verbatim>\<open>add_duplicated_anomalies\<close>, \<^verbatim>\<open>add_irrelevant_features\<close>,
  \<^verbatim>\<open>add_label_contamination\<close> and \<^verbatim>\<open>generator\<close>.

  Conventions of the embedding.
  \<^item> A Python exception is a value of \<open>py_error\<close>; a call that may raise returns
    \<open>py_error + 'a\<close>, with \<open>Inl\<close> the exception.
  \<^item> A Python \<^verbatim>\<open>float\<close> is the \<open>real\<close> it denotes; NaN and the infinities are
    not values of the model. The arithmetic on the entries of the feature matrices is
    exact. Where the source turns a float expression into a count (lines 171, 195, 366
    and 368) the expression is evaluated as Python evaluates it, in binary64: every
    operation is rounded to the nearest double, ties to even, and a result beyond the
    largest double is the infinity on which \<^verbatim>\<open>int\<close> and \<^verbatim>\<open>ceil\<close> raise
    OverflowError.
  \<^item> A two-dimensional numpy array is a record of its column count and its rows; the
    column count is kept apart because an array with no rows still has a shape.
  \<^item> numpy arrays are handled by value. The in-place writes of the source
    (\<^verbatim>\<open>y[idx] = ...\<close>) act on arrays that were produced by fancy indexing just before
    and are owned by the writing call, so the model returns the updated array.
  \<^item> The global random generators (\<^verbatim>\<open>np.random\<close>, \<^verbatim>\<open>random\<close>) are one
    state of type \<open>'s\<close> that every drawing call takes and returns.
\<close>

datatype py_error =
    NotImplementedError
  | ValueError
  | IndexError
  | AssertionError
  | ZeroDivisionError
  | AttributeError
  | UnboundLocalError
  | OverflowError
  | LibraryError

definition and_then :: "py_error + 'a \<Rightarrow> ('a \<Rightarrow> py_error + 'b) \<Rightarrow> py_error + 'b" where
  "and_then m f = (case m of Inl e \<Rightarrow> Inl e | Inr v \<Rightarrow> f v)"

record ndarray2 =
  ncols :: nat
  rows :: "real list list"

definition shape0 :: "ndarray2 \<Rightarrow> nat" where
  "shape0 A = length (rows A)"

definition shape1 :: "ndarray2 \<Rightarrow> nat" where
  "shape1 A = ncols A"

text \<open>Every row of a well-shaped array has \<open>ncols\<close> entries.\<close>

definition well_shaped :: "ndarray2 \<Rightarrow> bool" where
  "well_shaped A = list_all (\<lambda>r. length r = ncols A) (rows A)"

subsection \<open>Double-precision arithmetic\<close>

text \<open>
  For \<open>x > 0\<close>, \<open>binade x\<close> is the exponent \<open>e\<close> with \<open>2 powi e \<le> x < 2 powi (e + 1)\<close>.
  The doubles of that binade are the multiples of \<open>2 powi (e - 52)\<close>; below
  \<open>2 powi (- 1022)\<close>, in the subnormal range, they are the multiples of
  \<open>2 powi (- 1074)\<close>. \<open>round_double\<close> takes a real to the nearest such multiple, a tie
  to the one with the even multiplier, as IEEE 754 does in its default rounding mode.
  \<open>overflow\<close> holds of a rounded value that binary64 represents as an infinity.
\<close>

definition binade :: "real \<Rightarrow> int" where
  "binade x =
     (if 1 \<le> x then int (floorlog 2 (nat \<lfloor>x\<rfloor>)) - 1
      else - int (floorlog 2 (nat (\<lceil>1 / x\<rceil> - 1))))"

definition round_half_even :: "real \<Rightarrow> int" where
  "round_half_even m =
     (let k = \<lfloor>m\<rfloor>; r = m - of_int k
      in if r < 1 / 2 then k
         else if 1 / 2 < r then k + 1
         else if even k then k else k + 1)"

definition quantum :: "real \<Rightarrow> real" where
  "quantum a = 2 powi (max (binade a) (- 1022) - 52)"

definition round_double :: "real \<Rightarrow> real" where
  "round_double x =
     (if x = 0 then 0
      else sgn x * (of_int (round_half_even (\<bar>x\<bar> / quantum \<bar>x\<bar>)) * quantum \<bar>x\<bar>))"

definition overflow :: "real \<Rightarrow> bool" where
  "overflow v \<longleftrightarrow> 2 ^ 1024 \<le> \<bar>v\<bar>"

text \<open>The reals that are finite doubles.\<close>

definition is_double :: "real \<Rightarrow> bool" where
  "is_double x \<longleftrightarrow> round_double x = x \<and> \<not> overflow x"

text \<open>\<^verbatim>\<open>x * n\<close> and \<^verbatim>\<open>n * x\<close> for a float \<open>x\<close> and an int \<open>n\<close>: the int is converted
  to a double and the product is rounded.\<close>

definition float_times_int :: "real \<Rightarrow> nat \<Rightarrow> real" where
  "float_times_int x n = round_double (x * round_double (real n))"

text \<open>\<^verbatim>\<open>int(x)\<close> on a float truncates towards zero, \<^verbatim>\<open>math.ceil(x)\<close> rounds up; both
  raise OverflowError on an infinity.\<close>

definition py_int :: "real \<Rightarrow> int" where
  "py_int x = (if 0 \<le> x then \<lfloor>x\<rfloor> else \<lceil>x\<rceil>)"

definition py_int_of_float :: "real \<Rightarrow> py_error + int" where
  "py_int_of_float v = (if overflow v then Inl OverflowError else Inr (py_int v))"

definition py_ceil :: "real \<Rightarrow> py_error + int" where
  "py_ceil v = (if overflow v then Inl OverflowError else Inr \<lceil>v\<rceil>)"

subsection \<open>numpy operations\<close>

text \<open>\<^verbatim>\<open>np.where(y == v)[0]\<close>: the positions of \<open>v\<close> in \<open>y\<close>, ascending.\<close>

definition np_where_eq :: "int list \<Rightarrow> int \<Rightarrow> nat list" where
  "np_where_eq y v = filter (\<lambda>i. y ! i = v) [0..<length y]"

text \<open>\<^verbatim>\<open>np.min(a)\<close> and \<^verbatim>\<open>np.max(a)\<close> over all entries; numpy raises ValueError on
  an array without entries.\<close>

definition np_min :: "real list \<Rightarrow> py_error + real" where
  "np_min xs = (if xs = [] then Inl ValueError else Inr (Min (set xs)))"

definition np_max :: "real list \<Rightarrow> py_error + real" where
  "np_max xs = (if xs = [] then Inl ValueError else Inr (Max (set xs)))"

text \<open>\<^verbatim>\<open>X[:, i]\<close> for an integer \<open>i\<close>.\<close>

definition column :: "ndarray2 \<Rightarrow> nat \<Rightarrow> real list" where
  "column A i = map (\<lambda>r. r ! i) (rows A)"

text \<open>\<^verbatim>\<open>X[idx]\<close> and \<^verbatim>\<open>X[:, idx]\<close> for an index array: fancy indexing copies the
  selected rows (columns) in the order of \<open>idx\<close> and raises IndexError on an index out
  of bounds.\<close>

definition np_take_rows :: "ndarray2 \<Rightarrow> nat list \<Rightarrow> py_error + ndarray2" where
  "np_take_rows A idx =
     (if list_all (\<lambda>i. i < shape0 A) idx
      then Inr \<lparr>ncols = ncols A, rows = map (\<lambda>i. rows A ! i) idx\<rparr>
      else Inl IndexError)"

definition np_take_cols :: "ndarray2 \<Rightarrow> nat list \<Rightarrow> py_error + ndarray2" where
  "np_take_cols A idx =
     (if list_all (\<lambda>i. i < shape1 A) idx
      then Inr \<lparr>ncols = length idx, rows = map (\<lambda>r. map (\<lambda>i. r ! i) idx) (rows A)\<rparr>
      else Inl IndexError)"

definition np_take :: "int list \<Rightarrow> nat list \<Rightarrow> py_error + int list" where
  "np_take y idx =
     (if list_all (\<lambda>i. i < length y) idx then Inr (map (\<lambda>i. y ! i) idx) else Inl IndexError)"

text \<open>\<^verbatim>\<open>np.concatenate((A, B), axis=0)\<close> needs equal column counts,
  \<^verbatim>\<open>np.concatenate((A, B), axis=1)\<close> equal row counts.\<close>

definition np_concatenate0 :: "ndarray2 \<Rightarrow> ndarray2 \<Rightarrow> py_error + ndarray2" where
  "np_concatenate0 A B =
     (if shape1 A = shape1 B then Inr \<lparr>ncols = ncols A, rows = rows A @ rows B\<rparr>
      else Inl ValueError)"

definition np_concatenate1 :: "ndarray2 \<Rightarrow> ndarray2 \<Rightarrow> py_error + ndarray2" where
  "np_concatenate1 A B =
     (if shape0 A = shape0 B
      then Inr \<lparr>ncols = ncols A + ncols B, rows = map2 (@) (rows A) (rows B)\<rparr>
      else Inl ValueError)"

text \<open>A list of equally long one-dimensional arrays as the columns of a matrix:
  \<^verbatim>\<open>np.hstack\<close> of \<open>(n, 1)\<close> arrays, and \<^verbatim>\<open>np.array(cols).T\<close>.\<close>

definition from_columns :: "nat \<Rightarrow> real list list \<Rightarrow> ndarray2" where
  "from_columns n cols =
     \<lparr>ncols = length cols, rows = map (\<lambda>r. map (\<lambda>c. c ! r) cols) [0..<n]\<rparr>"

section \<open>The external collaborators\<close>

text \<open>
  The statistical models (scikit-learn's \<^verbatim>\<open>GaussianMixture\<close>, the \<^verbatim>\<open>copulas\<close>
  package), the random draws of numpy and of \<^verbatim>\<open>random\<close>, the splitter, the scaler, the
  file readers and \<^verbatim>\<open>myutils.Utils\<close> are not part of the module. They are the fields
  of a record that every function of the model takes as its first argument; what a
  theorem needs of them is stated as a contract on that record.
\<close>

record gmm =
  weights :: "real list"
  means :: "real list list"
  covariances :: "real list list list"

record ('s, 'cop, 'kde, 'sc) library =
  gm_fit :: "nat \<Rightarrow> int \<Rightarrow> ndarray2 \<Rightarrow> py_error + gmm"
  gm_bic :: "gmm \<Rightarrow> ndarray2 \<Rightarrow> real"
  gm_sample :: "gmm \<Rightarrow> nat \<Rightarrow> 's \<Rightarrow> py_error + (ndarray2 \<times> 's)"
  copula_fit :: "ndarray2 \<Rightarrow> 's \<Rightarrow> py_error + ('cop \<times> 's)"
  copula_sample :: "'cop \<Rightarrow> nat \<Rightarrow> 's \<Rightarrow> py_error + (ndarray2 \<times> 's)"
  kde_fit :: "real list \<Rightarrow> 's \<Rightarrow> py_error + ('kde \<times> 's)"
  kde_sample :: "'kde \<Rightarrow> nat \<Rightarrow> 's \<Rightarrow> py_error + (real list \<times> 's)"
  random_choice :: "nat list \<Rightarrow> int \<Rightarrow> bool \<Rightarrow> 's \<Rightarrow> py_error + (nat list \<times> 's)"
  random_uniform :: "real \<Rightarrow> real \<Rightarrow> nat \<Rightarrow> 's \<Rightarrow> real list \<times> 's"
  random_shuffle :: "nat list \<Rightarrow> 's \<Rightarrow> nat list \<times> 's"
  set_seed :: "int \<Rightarrow> 's \<Rightarrow> 's"
  load_dataset :: "string \<Rightarrow> py_error + (ndarray2 \<times> int list)"
  dependency_table :: "string \<Rightarrow> (ndarray2 \<times> int list) option"
  train_test_split ::
    "ndarray2 \<Rightarrow> int list \<Rightarrow> real \<Rightarrow> 's \<Rightarrow>
       py_error + ((ndarray2 \<times> ndarray2 \<times> int list \<times> int list) \<times> 's)"
  scaler_fit :: "ndarray2 \<Rightarrow> py_error + 'sc"
  scaler_transform :: "'sc \<Rightarrow> ndarray2 \<Rightarrow> py_error + ndarray2"

section \<open>The generator object\<close>

text \<open>The fields that \<^verbatim>\<open>__init__\<close> stores. \<^verbatim>\<open>self.dataset\<close> defaults to
  \<^verbatim>\<open>None\<close>; \<^verbatim>\<open>self.utils\<close> is part of the collaborators.\<close>

record data_generator =
  seed :: int
  dataset :: "string option"
  test_size :: real
  generate_duplicates :: bool
  n_samples_threshold :: int

text \<open>The argument \<^verbatim>\<open>la\<close> of \<^verbatim>\<open>generator\<close> is inspected by
  \<^verbatim>\<open>type(la) == float\<close> and \<^verbatim>\<open>type(la) == int\<close>; every other value, the default
  \<^verbatim>\<open>None\<close> and booleans included, is \<open>LaOther\<close>.\<close>

datatype la_arg = LaFloat real | LaInt int | LaOther

record pipeline_result =
  X_train :: ndarray2
  y_train :: "int list"
  X_test :: ndarray2
  y_test :: "int list"

section \<open>Robustness noise: irrelevant features\<close>

text \<open>
  The loop of \<^verbatim>\<open>add_irrelevant_features\<close>: for each new dimension it draws one source
  column with \<^verbatim>\<open>np.random.choice(np.arange(X.shape[1]), 1)\<close>, takes the minimum and the
  maximum of \<^verbatim>\<open>X[:, idx]\<close> and draws \<^verbatim>\<open>X.shape[0]\<close> uniform values between them.
\<close>

fun noise_columns ::
  "('s, 'cop, 'kde, 'sc) library \<Rightarrow> ndarray2 \<Rightarrow> nat \<Rightarrow> 's \<Rightarrow> py_error + (real list list \<times> 's)"
where
  "noise_columns L X 0 s = Inr ([], s)"
| "noise_columns L X (Suc k) s =
     and_then (random_choice L [0..<shape1 X] 1 True s) (\<lambda>(idx, s1).
     and_then (np_take_cols X idx) (\<lambda>Xsel.
     and_then (np_min (concat (rows Xsel))) (\<lambda>X_min.
     and_then (np_max (concat (rows Xsel))) (\<lambda>X_max.
       case random_uniform L X_min X_max (shape0 X) s1 of (u, s2) \<Rightarrow>
     and_then (noise_columns L X k s2) (\<lambda>(us, s3).
       Inr (u # us, s3))))))"

text \<open>\<^verbatim>\<open>np.hstack(X_noise)\<close> for the \<open>(n, 1)\<close> arrays of the loop: it raises ValueError
  when the arrays do not all have \<open>n\<close> rows.\<close>

definition np_hstack :: "nat \<Rightarrow> real list list \<Rightarrow> py_error + ndarray2" where
  "np_hstack n cols =
     (if list_all (\<lambda>c. length c = n) cols then Inr (from_columns n cols) else Inl ValueError)"

text \<open>Line 171, \<^verbatim>\<open>int(noise_ratio / (1 - noise_ratio) * X.shape[1])\<close>, operation by
  operation. A zero divisor raises ZeroDivisionError. An infinite quotient times a
  positive column count is infinite, and \<^verbatim>\<open>int\<close> raises OverflowError; times the
  column count 0 it is NaN, and \<^verbatim>\<open>int\<close> raises ValueError.\<close>

definition noise_dim_of :: "real \<Rightarrow> nat \<Rightarrow> py_error + int" where
  "noise_dim_of noise_ratio d =
     (let denom = round_double (1 - noise_ratio) in
      if denom = 0 then Inl ZeroDivisionError
      else
        let quot = round_double (noise_ratio / denom) in
        if overflow quot then (if d = 0 then Inl ValueError else Inl OverflowError)
        else py_int_of_float (float_times_int quot d))"

definition add_irrelevant_features ::
  "('s, 'cop, 'kde, 'sc) library \<Rightarrow> ndarray2 \<Rightarrow> int list \<Rightarrow> real \<Rightarrow> 's \<Rightarrow>
     py_error + ((ndarray2 \<times> int list) \<times> 's)"
where
  "add_irrelevant_features L X y noise_ratio s =
     (if noise_ratio = 0 then Inr ((X, y), s)
      else
        and_then (noise_dim_of noise_ratio (shape1 X)) (\<lambda>noise_dim.
        if 0 < noise_dim then
          and_then (noise_columns L X (nat noise_dim) s) (\<lambda>(X_noise, s1).
          and_then (np_hstack (shape0 X) X_noise) (\<lambda>N.
          and_then (np_concatenate1 X N) (\<lambda>X1.
          and_then (random_choice L [0..<shape1 X1] (int (shape1 X1)) False s1) (\<lambda>(idx, s2).
          and_then (np_take_cols X1 idx) (\<lambda>X2.
            Inr ((X2, y), s2))))))
        else Inr ((X, y), s)))"

section \<open>Robustness noise: duplicated anomalies and label contamination\<close>

text \<open>
  \<^verbatim>\<open>add_duplicated_anomalies\<close>: the anomaly positions are resampled with replacement
  (\<^verbatim>\<open>np.random.choice(idx_a, int(len(idx_a) * duplicate_times))\<close>), appended to the
  normal positions and shuffled by \<^verbatim>\<open>random.shuffle\<close>; both arrays are then indexed by
  the same index array.
\<close>

definition add_duplicated_anomalies ::
  "('s, 'cop, 'kde, 'sc) library \<Rightarrow> ndarray2 \<Rightarrow> int list \<Rightarrow> int \<Rightarrow> 's \<Rightarrow>
     py_error + ((ndarray2 \<times> int list) \<times> 's)"
where
  "add_duplicated_anomalies L X y duplicate_times s =
     (if duplicate_times \<le> 1 then Inr ((X, y), s)
      else
        let idx_n = np_where_eq y 0;
            idx_a = np_where_eq y 1
        in
          and_then (random_choice L idx_a (int (length idx_a) * duplicate_times) True s)
            (\<lambda>(idx_a', s1).
          case random_shuffle L (idx_n @ idx_a') s1 of (idx, s2) \<Rightarrow>
          and_then (np_take_rows X idx) (\<lambda>X'.
          and_then (np_take y idx) (\<lambda>y'.
            Inr ((X', y'), s2)))))"

text \<open>\<^verbatim>\<open>y[idx] = 1 - y[idx]\<close>: the right-hand side is read from the old array, so a
  position listed twice is still flipped once.\<close>

definition flip_labels :: "int list \<Rightarrow> nat list \<Rightarrow> py_error + int list" where
  "flip_labels y idx =
     (if list_all (\<lambda>i. i < length y) idx
      then Inr (map (\<lambda>i. if i \<in> set idx then 1 - y ! i else y ! i) [0..<length y])
      else Inl IndexError)"

definition add_label_contamination ::
  "('s, 'cop, 'kde, 'sc) library \<Rightarrow> ndarray2 \<Rightarrow> int list \<Rightarrow> real \<Rightarrow> 's \<Rightarrow>
     py_error + ((ndarray2 \<times> int list) \<times> 's)"
where
  "add_label_contamination L X y noise_ratio s =
     (if noise_ratio = 0 then Inr ((X, y), s)
      else
        and_then (py_int_of_float (float_times_int noise_ratio (length y))) (\<lambda>n_flips.
        and_then (random_choice L [0..<length y] n_flips False s) (\<lambda>(idx_flips, s1).
        and_then (flip_labels y idx_flips) (\<lambda>y'.
          Inr ((X, y'), s1)))))"

section \<open>Outlier synthesis\<close>

text \<open>\<^verbatim>\<open>X[y == 0]\<close>: a boolean mask must be as long as the axis it indexes.\<close>

definition np_mask_rows :: "ndarray2 \<Rightarrow> int list \<Rightarrow> int \<Rightarrow> py_error + ndarray2" where
  "np_mask_rows A y v =
     (if length y = shape0 A
      then Inr \<lparr>ncols = ncols A, rows = map (\<lambda>i. rows A ! i) (np_where_eq y v)\<rparr>
      else Inl IndexError)"

text \<open>\<^verbatim>\<open>list(np.arange(1, 10))\<close>.\<close>

definition n_components_list :: "nat list" where
  "n_components_list = [1..<10]"

text \<open>The model-selection loop: one fit and one BIC value per candidate, in order. The
  fit is given \<^verbatim>\<open>random_state=self.seed\<close>, so it does not read the global random
  state.\<close>

fun bic_search ::
  "('s, 'cop, 'kde, 'sc) library \<Rightarrow> int \<Rightarrow> ndarray2 \<Rightarrow> nat list \<Rightarrow> py_error + real list"
where
  "bic_search L random_state X [] = Inr []"
| "bic_search L random_state X (n_components # rest) =
     and_then (gm_fit L n_components random_state X) (\<lambda>gm.
     and_then (bic_search L random_state X rest) (\<lambda>metric_list.
       Inr (gm_bic L gm X # metric_list)))"

text \<open>\<^verbatim>\<open>np.argmin\<close>: the first position of the minimum; ValueError on an empty
  sequence.\<close>

definition np_argmin :: "real list \<Rightarrow> py_error + nat" where
  "np_argmin xs =
     (if xs = [] then Inl ValueError
      else Inr (length (takeWhile (\<lambda>x. x \<noteq> Min (set xs)) xs)))"

text \<open>Lines 69 to 100: the synthetic normal population. The result carries the fitted
  mixture (bound only in the mixture modes), the fitting data (column-subsampled in
  dependency mode) and the sample.\<close>

definition synthetic_normal ::
  "('s, 'cop, 'kde, 'sc) library \<Rightarrow> int \<Rightarrow> ndarray2 \<Rightarrow> nat \<Rightarrow> string \<Rightarrow> 's \<Rightarrow>
     py_error + ((gmm option \<times> ndarray2 \<times> ndarray2) \<times> 's)"
where
  "synthetic_normal L random_state X pts_n mode s =
     (if mode \<in> set [''local'', ''cluster'', ''global''] then
        and_then (bic_search L random_state X n_components_list) (\<lambda>metric_list.
        and_then (np_argmin metric_list) (\<lambda>best.
          let best_n_components = n_components_list ! best in
        and_then (gm_fit L best_n_components random_state X) (\<lambda>gm.
        and_then (gm_sample L gm pts_n s) (\<lambda>(X_synthetic_normal, s1).
          Inr ((Some gm, X, X_synthetic_normal), s1)))))
      else if mode = ''dependency'' then
        and_then
          (if 50 < shape1 X then
             and_then (random_choice L [0..<shape1 X] 50 False s) (\<lambda>(idx, s1).
             and_then (np_take_cols X idx) (\<lambda>X'. Inr (X', s1)))
           else Inr (X, s))
          (\<lambda>(X1, s1).
        and_then (copula_fit L X1 s1) (\<lambda>(copula, s2).
        and_then (copula_sample L copula pts_n s2) (\<lambda>(X_synthetic_normal, s3).
          Inr ((None, X1, X_synthetic_normal), s3))))
      else Inl UnboundLocalError)"

text \<open>\<^verbatim>\<open>alpha * gm.covariances_\<close> and \<^verbatim>\<open>alpha * gm.means_\<close>: every entry is
  multiplied.\<close>

definition scale_covariances :: "int \<Rightarrow> gmm \<Rightarrow> gmm" where
  "scale_covariances alpha gm =
     gm\<lparr>covariances := map (map (map (\<lambda>v. real_of_int alpha * v))) (covariances gm)\<rparr>"

definition scale_means :: "int \<Rightarrow> gmm \<Rightarrow> gmm" where
  "scale_means alpha gm = gm\<lparr>means := map (map (\<lambda>v. real_of_int alpha * v)) (means gm)\<rparr>"

text \<open>Dependency mode, lines 114 to 120: one kernel density estimate per column of the
  fitting data. The assignment \<^verbatim>\<open>X_synthetic_anomalies[:, i] = kde.sample(pts_a)\<close>
  broadcasts a single value and raises ValueError on any other length mismatch.\<close>

fun kde_columns ::
  "('s, 'cop, 'kde, 'sc) library \<Rightarrow> ndarray2 \<Rightarrow> nat \<Rightarrow> nat list \<Rightarrow> 's \<Rightarrow>
     py_error + (real list list \<times> 's)"
where
  "kde_columns L X pts_a [] s = Inr ([], s)"
| "kde_columns L X pts_a (i # rest) s =
     and_then (kde_fit L (column X i) s) (\<lambda>(kde, s1).
     and_then (kde_sample L kde pts_a s1) (\<lambda>(v, s2).
     and_then
       (if length v = pts_a then Inr v
        else if length v = 1 then Inr (replicate pts_a (hd v))
        else Inl ValueError) (\<lambda>col.
     and_then (kde_columns L X pts_a rest s2) (\<lambda>(cols, s3).
       Inr (col # cols, s3)))))"

text \<open>Global mode, lines 124 to 130: per column of the synthetic normal population, the
  bounds are its minimum and maximum times \<open>1 + percentage\<close>.\<close>

fun global_columns ::
  "('s, 'cop, 'kde, 'sc) library \<Rightarrow> ndarray2 \<Rightarrow> real \<Rightarrow> nat \<Rightarrow> nat list \<Rightarrow> 's \<Rightarrow>
     py_error + (real list list \<times> 's)"
where
  "global_columns L Xn percentage pts_a [] s = Inr ([], s)"
| "global_columns L Xn percentage pts_a (i # rest) s =
     and_then (np_min (column Xn i)) (\<lambda>mn.
     and_then (np_max (column Xn i)) (\<lambda>mx.
       let low = mn * (1 + percentage);
           high = mx * (1 + percentage)
       in
       case random_uniform L low high pts_a s of (u, s1) \<Rightarrow>
     and_then (global_columns L Xn percentage pts_a rest s1) (\<lambda>(cols, s2).
       Inr (u # cols, s2))))"

text \<open>\<^verbatim>\<open>np.array(X_synthetic_anomalies).T\<close> at line 132. An empty list gives a
  one-dimensional empty array, on which the concatenation of line 137 raises ValueError;
  arrays of different lengths do not form a matrix.\<close>

definition np_array_T :: "real list list \<Rightarrow> py_error + ndarray2" where
  "np_array_T cols =
     (case cols of
        [] \<Rightarrow> Inl ValueError
      | c # cs \<Rightarrow>
          if list_all (\<lambda>c'. length c' = length c) cs then Inr (from_columns (length c) cols)
          else Inl ValueError)"

text \<open>Lines 103 to 135: the synthetic anomalies.\<close>

definition synthetic_anomalies ::
  "('s, 'cop, 'kde, 'sc) library \<Rightarrow> gmm option \<Rightarrow> ndarray2 \<Rightarrow> ndarray2 \<Rightarrow> nat \<Rightarrow> string \<Rightarrow>
     int \<Rightarrow> real \<Rightarrow> 's \<Rightarrow> py_error + (ndarray2 \<times> 's)"
where
  "synthetic_anomalies L gm X X_synthetic_normal pts_a mode alpha percentage s =
     (if mode = ''local'' then
        (case gm of
           None \<Rightarrow> Inl UnboundLocalError
         | Some g \<Rightarrow> gm_sample L (scale_covariances alpha g) pts_a s)
      else if mode = ''cluster'' then
        (case gm of
           None \<Rightarrow> Inl UnboundLocalError
         | Some g \<Rightarrow> gm_sample L (scale_means alpha g) pts_a s)
      else if mode = ''dependency'' then
        and_then (kde_columns L X pts_a [0..<shape1 X] s) (\<lambda>(cols, s1).
          Inr (from_columns pts_a cols, s1))
      else if mode = ''global'' then
        and_then
          (global_columns L X_synthetic_normal percentage pts_a
             [0..<shape1 X_synthetic_normal] s) (\<lambda>(cols, s1).
        and_then (np_array_T cols) (\<lambda>Xa.
          Inr (Xa, s1)))
      else Inl UnboundLocalError)"

definition generate_realistic_synthetic ::
  "('s, 'cop, 'kde, 'sc) library \<Rightarrow> data_generator \<Rightarrow> ndarray2 \<Rightarrow> int list \<Rightarrow> string \<Rightarrow> int \<Rightarrow>
     real \<Rightarrow> 's \<Rightarrow> py_error + ((ndarray2 \<times> int list) \<times> 's)"
where
  "generate_realistic_synthetic L self X y realistic_synthetic_mode alpha percentage s =
     (if realistic_synthetic_mode \<in> set [''local'', ''cluster'', ''dependency'', ''global'']
      then
        let pts_n = length (np_where_eq y 0);
            pts_a = length (np_where_eq y 1)
        in
          and_then (np_mask_rows X y 0) (\<lambda>X0.
          and_then (synthetic_normal L (seed self) X0 pts_n realistic_synthetic_mode s)
            (\<lambda>((gm, X1, X_synthetic_normal), s1).
          and_then
            (synthetic_anomalies L gm X1 X_synthetic_normal pts_a realistic_synthetic_mode
               alpha percentage s1) (\<lambda>(X_synthetic_anomalies, s2).
          and_then (np_concatenate0 X_synthetic_normal X_synthetic_anomalies) (\<lambda>X'.
            Inr ((X', replicate (shape0 X_synthetic_normal) 0 @
                      replicate (shape0 X_synthetic_anomalies) 1), s2)))))
      else Inl NotImplementedError)"

section \<open>The pipeline\<close>

text \<open>The dataset names that \<^verbatim>\<open>generator\<close> accepts, by file format (lines 212 to 265).
  Reading the file is the collaborator \<open>load_dataset\<close>.\<close>

definition mat_datasets :: "string list" where
  "mat_datasets =
     [''annthyroid'', ''cardio'', ''mammography'', ''musk'', ''optdigits'', ''pendigits'',
      ''satimage-2'', ''speech'', ''thyroid'', ''vowels'', ''cover'', ''http'', ''letter'',
      ''mnist'', ''satellite'', ''shuttle'', ''smtp'', ''breastw'', ''vertebral'', ''wine'']"

definition csv_quoted_datasets :: "string list" where
  "csv_quoted_datasets =
     [''Waveform_withoutdupl_v10'', ''InternetAds_withoutdupl_norm_19'',
      ''PageBlocks_withoutdupl_09'', ''SpamBase_withoutdupl_40'', ''Wilt_withoutdupl_05'',
      ''Cardiotocography_withoutdupl_22'', ''WBC_withoutdupl_v10'', ''WDBC_withoutdupl_v10'',
      ''WPBC_withoutdupl_norm'', ''Arrhythmia_withoutdupl_46'', ''HeartDisease_withoutdupl_44'',
      ''Hepatitis_withoutdupl_16'', ''Parkinson_withoutdupl_75'', ''Pima_withoutdupl_35'',
      ''Stamps_withoutdupl_09'']"

definition csv_datasets :: "string list" where
  "csv_datasets =
     [''ALOI_withoutdupl'', ''glass_withoutduplicates_normalized'',
      ''Ionosphere_withoutdupl_norm'', ''Lymphography_withoutdupl_idf'']"

definition diff_datasets :: "string list" where
  "diff_datasets =
     [''abalone.diff'', ''comm.and.crime.diff'', ''concrete.diff'', ''fault.diff'',
      ''imgseg.diff'', ''landsat.diff'', ''magic.gamma.diff'', ''skin.diff'', ''yeast.diff'']"

text \<open>\<^verbatim>\<open>str(i)\<close> for \<open>i\<close> in \<^verbatim>\<open>range(n)\<close>, \<open>n \<le> 10\<close>: one decimal digit.\<close>

definition digits :: "nat \<Rightarrow> string list" where
  "digits n = map (\<lambda>i. [char_of (48 + i)]) [0..<n]"

definition npz_datasets :: "string list" where
  "npz_datasets =
     [''amazon'', ''yelp'', ''imdb''] @
     map (\<lambda>i. ''agnews_'' @ i) (digits 4) @
     map (\<lambda>i. ''FashionMNIST_'' @ i) (digits 10) @
     map (\<lambda>i. ''CIFAR10_'' @ i) (digits 10) @
     map (\<lambda>i. ''SVHN_'' @ i) (digits 10)"

definition load_data ::
  "('s, 'cop, 'kde, 'sc) library \<Rightarrow> data_generator \<Rightarrow> py_error + (ndarray2 \<times> int list)"
where
  "load_data L self =
     (case dataset self of
        None \<Rightarrow> Inl NotImplementedError
      | Some name \<Rightarrow>
          if name \<in> set (mat_datasets @ csv_quoted_datasets @ csv_datasets @ diff_datasets @
                          [''CCFD'', ''TBP''] @ npz_datasets)
          then load_dataset L name
          else Inl NotImplementedError)"

text \<open>Lines 289 to 302: a dataset below the threshold is resampled with replacement up
  to it, one above 10000 rows is subsampled without replacement; each draw follows a
  reseeding.\<close>

definition normalise_size ::
  "('s, 'cop, 'kde, 'sc) library \<Rightarrow> data_generator \<Rightarrow> ndarray2 \<Rightarrow> int list \<Rightarrow> 's \<Rightarrow>
     py_error + ((ndarray2 \<times> int list) \<times> 's)"
where
  "normalise_size L self X y s =
     and_then
       (if int (length y) < n_samples_threshold self \<and> generate_duplicates self then
          and_then
            (random_choice L [0..<length y] (n_samples_threshold self) True
               (set_seed L (seed self) s)) (\<lambda>(idx_duplicate, s1).
          and_then (np_take_rows X idx_duplicate) (\<lambda>X'.
          and_then (np_take y idx_duplicate) (\<lambda>y'.
            Inr ((X', y'), s1))))
        else Inr ((X, y), s))
       (\<lambda>((X, y), s1).
     if 10000 < length y then
       and_then (random_choice L [0..<length y] 10000 False (set_seed L (seed self) s1))
         (\<lambda>(idx_sample, s2).
       and_then (np_take_rows X idx_sample) (\<lambda>X'.
       and_then (np_take y idx_sample) (\<lambda>y'.
         Inr ((X', y'), s2))))
     else Inr ((X, y), s1))"

text \<open>Lines 209 to 341: everything before the split. The value
  \<^verbatim>\<open>n_labeled_anomalies\<close> of lines 278 to 284 is never read; of that block only the
  rejection of an \<^verbatim>\<open>la\<close> that is neither float nor int remains.
  \<^verbatim>\<open>data_description\<close> prints and returns nothing.\<close>

definition prepare_data ::
  "('s, 'cop, 'kde, 'sc) library \<Rightarrow> data_generator \<Rightarrow> la_arg \<Rightarrow> string option \<Rightarrow> int \<Rightarrow> real \<Rightarrow>
     string option \<Rightarrow> real \<Rightarrow> 's \<Rightarrow> py_error + ((ndarray2 \<times> int list) \<times> 's)"
where
  "prepare_data L self la realistic_synthetic_mode alpha percentage noise_type noise_ratio s =
     and_then (load_data L self) (\<lambda>(X, y).
     if la = LaOther then Inl NotImplementedError
     else
       and_then (normalise_size L self X y (set_seed L (seed self) s)) (\<lambda>((X, y), s1).
       and_then
         (case realistic_synthetic_mode of
            None \<Rightarrow> Inr ((X, y), s1)
          | Some mode \<Rightarrow>
              if mode = ''dependency'' then
                (case dataset self of
                   None \<Rightarrow> Inl NotImplementedError
                 | Some name \<Rightarrow>
                     (case dependency_table L name of
                        None \<Rightarrow> Inl NotImplementedError
                      | Some (X', y') \<Rightarrow> Inr ((X', y'), s1)))
              else generate_realistic_synthetic L self X y mode alpha percentage s1)
         (\<lambda>((X, y), s2).
       case noise_type of
         None \<Rightarrow> Inr ((X, y), s2)
       | Some nt \<Rightarrow>
           if nt = ''duplicated_anomalies'' then Inr ((X, y), s2)
           else if nt = ''irrelevant_features'' then
             add_irrelevant_features L X y noise_ratio s2
           else if nt = ''label_contamination'' then Inr ((X, y), s2)
           else Inl NotImplementedError)))"

text \<open>Lines 344 to 358: the split, the noise that follows it, and the scaling.\<close>

definition split_and_scale ::
  "('s, 'cop, 'kde, 'sc) library \<Rightarrow> data_generator \<Rightarrow> string option \<Rightarrow> int \<Rightarrow> real \<Rightarrow>
     ndarray2 \<Rightarrow> int list \<Rightarrow> 's \<Rightarrow>
     py_error + ((ndarray2 \<times> ndarray2 \<times> int list \<times> int list) \<times> 's)"
where
  "split_and_scale L self noise_type duplicate_times noise_ratio X y s =
     and_then (train_test_split L X y (test_size self) s)
       (\<lambda>((Xtr, Xte, ytr, yte), s1).
     and_then
       (if noise_type = Some ''duplicated_anomalies'' then
          and_then (add_duplicated_anomalies L Xtr ytr duplicate_times s1)
            (\<lambda>((Xtr', ytr'), s2).
          and_then (add_duplicated_anomalies L Xte yte duplicate_times s2)
            (\<lambda>((Xte', yte'), s3).
            Inr ((Xtr', Xte', ytr', yte'), s3)))
        else if noise_type = Some ''label_contamination'' then
          and_then (add_label_contamination L Xtr ytr noise_ratio s1)
            (\<lambda>((Xtr', ytr'), s2).
            Inr ((Xtr', Xte, ytr', yte), s2))
        else Inr ((Xtr, Xte, ytr, yte), s1))
       (\<lambda>((Xtr, Xte, ytr, yte), s2).
     and_then (scaler_fit L Xtr) (\<lambda>scaler.
     and_then (scaler_transform L scaler Xtr) (\<lambda>Xtr'.
     and_then (scaler_transform L scaler Xte) (\<lambda>Xte'.
       Inr ((Xtr', Xte', ytr, yte), s2))))))"

text \<open>\<^verbatim>\<open>np.setdiff1d(a, b)\<close>: the sorted distinct values of \<open>a\<close> that are not in
  \<open>b\<close>.\<close>

definition np_setdiff1d :: "nat list \<Rightarrow> nat list \<Rightarrow> nat list" where
  "np_setdiff1d a b = sorted_list_of_set (set a - set b)"

text \<open>\<^verbatim>\<open>y[idx] = v\<close> for an index array.\<close>

definition np_put :: "int list \<Rightarrow> nat list \<Rightarrow> int \<Rightarrow> py_error + int list" where
  "np_put y idx v =
     (if list_all (\<lambda>i. i < length y) idx
      then Inr (map (\<lambda>i. if i \<in> set idx then v else y ! i) [0..<length y])
      else Inl IndexError)"

text \<open>Lines 364 to 375: the draw of the labeled anomalies. The count of a float
  \<^verbatim>\<open>la\<close> is \<^verbatim>\<open>ceil(la * len(idx_anomaly))\<close> or \<^verbatim>\<open>int(la * len(idx_anomaly))\<close>, the
  product being a double.\<close>

definition select_labeled_anomalies ::
  "('s, 'cop, 'kde, 'sc) library \<Rightarrow> la_arg \<Rightarrow> bool \<Rightarrow> nat list \<Rightarrow> 's \<Rightarrow>
     py_error + (nat list \<times> 's)"
where
  "select_labeled_anomalies L la at_least_one_labeled idx_anomaly s =
     (case la of
        LaFloat f \<Rightarrow>
          and_then
            (if at_least_one_labeled then py_ceil (float_times_int f (length idx_anomaly))
             else py_int_of_float (float_times_int f (length idx_anomaly)))
            (\<lambda>n_labeled. random_choice L idx_anomaly n_labeled False s)
      | LaInt n \<Rightarrow>
          if int (length idx_anomaly) < n then Inl AssertionError
          else random_choice L idx_anomaly n False s
      | LaOther \<Rightarrow> Inl NotImplementedError)"

text \<open>Lines 361 to 389: the label partition of the training split. The method
  \<^verbatim>\<open>remove_anomaly_contamination\<close> called at line 380 is not defined in the class, so
  reaching it raises AttributeError; \<^verbatim>\<open>generator\<close> never reaches it, because the noise
  type that selects it is rejected at line 336.\<close>

definition label_partition ::
  "('s, 'cop, 'kde, 'sc) library \<Rightarrow> la_arg \<Rightarrow> bool \<Rightarrow> string option \<Rightarrow> int list \<Rightarrow> 's \<Rightarrow>
     py_error + (int list \<times> 's)"
where
  "label_partition L la at_least_one_labeled noise_type ytr s =
     (let idx_normal = np_where_eq ytr 0;
          idx_anomaly = np_where_eq ytr 1
      in
        and_then (select_labeled_anomalies L la at_least_one_labeled idx_anomaly s)
          (\<lambda>(idx_labeled_anomaly, s1).
          let idx_unlabeled_anomaly = np_setdiff1d idx_anomaly idx_labeled_anomaly in
          if noise_type = Some ''anomaly_contamination'' then Inl AttributeError
          else
            let idx_unlabeled = idx_normal @ idx_unlabeled_anomaly in
            and_then (np_put ytr idx_unlabeled 0) (\<lambda>y1.
            and_then (np_put y1 idx_labeled_anomaly 1) (\<lambda>y2.
              Inr (y2, s1)))))"

definition generator ::
  "('s, 'cop, 'kde, 'sc) library \<Rightarrow> data_generator \<Rightarrow> la_arg \<Rightarrow> bool \<Rightarrow> string option \<Rightarrow> int \<Rightarrow>
     real \<Rightarrow> string option \<Rightarrow> int \<Rightarrow> real \<Rightarrow> real \<Rightarrow> 's \<Rightarrow> py_error + (pipeline_result \<times> 's)"
where
  "generator L self la at_least_one_labeled realistic_synthetic_mode alpha percentage
     noise_type duplicate_times contam_ratio noise_ratio s =
     and_then
       (prepare_data L self la realistic_synthetic_mode alpha percentage noise_type
          noise_ratio s) (\<lambda>((X, y), s1).
     and_then (split_and_scale L self noise_type duplicate_times noise_ratio X y s1)
       (\<lambda>((Xtr, Xte, ytr, yte), s2).
     and_then (label_partition L la at_least_one_labeled noise_type ytr s2) (\<lambda>(ytr', s3).
       Inr (\<lparr>X_train = Xtr, y_train = ytr', X_test = Xte, y_test = yte\<rparr>, s3))))"

section \<open>The invariant of the pipeline\<close>

text \<open>A label vector is row-aligned with a matrix when it has one entry per row; it is
  binary when every entry is 0 or 1.\<close>

definition row_aligned :: "ndarray2 \<Rightarrow> int list \<Rightarrow> bool" where
  "row_aligned X y \<longleftrightarrow> length y = shape0 X"

definition binary :: "int list \<Rightarrow> bool" where
  "binary y \<longleftrightarrow> list_all (\<lambda>v. v = 0 \<or> v = 1) y"


section \<open>Contracts of the collaborators\<close>

text \<open>
  What the documentation of the libraries promises about a call that returns.
  \<^item> \<^verbatim>\<open>np.random.choice(a, size, replace)\<close> returns \<open>size\<close> elements of \<open>a\<close>; without
    replacement no position of \<open>a\<close> is taken twice.
  \<^item> \<^verbatim>\<open>np.random.choice(a, size, replace=False)\<close> returns whenever
    \<open>0 \<le> size \<le> len(a)\<close>.
  \<^item> \<^verbatim>\<open>np.random.uniform(low, high, size)\<close> returns \<open>size\<close> values, between \<open>low\<close> and
    \<open>high\<close> when \<open>low \<le> high\<close>.
  \<^item> \<^verbatim>\<open>sample(n)\<close> of a fitted mixture and of a fitted copula returns \<open>n\<close> rows.
\<close>

definition choice_contract :: "('s, 'cop, 'kde, 'sc) library \<Rightarrow> bool" where
  "choice_contract L \<longleftrightarrow>
     (\<forall>pop k replace s idx s'.
        random_choice L pop k replace s = Inr (idx, s') \<longrightarrow>
          0 \<le> k \<and> length idx = nat k \<and> set idx \<subseteq> set pop \<and>
          (\<not> replace \<longrightarrow> mset idx \<subseteq># mset pop))"

definition choice_succeeds :: "('s, 'cop, 'kde, 'sc) library \<Rightarrow> bool" where
  "choice_succeeds L \<longleftrightarrow>
     (\<forall>pop k s. 0 \<le> k \<and> k \<le> int (length pop) \<longrightarrow>
        (\<exists>r. random_choice L pop k False s = Inr r))"

definition uniform_contract :: "('s, 'cop, 'kde, 'sc) library \<Rightarrow> bool" where
  "uniform_contract L \<longleftrightarrow>
     (\<forall>lo hi n s.
        length (fst (random_uniform L lo hi n s)) = n \<and>
        (lo \<le> hi \<longrightarrow> (\<forall>v \<in> set (fst (random_uniform L lo hi n s)). lo \<le> v \<and> v \<le> hi)))"

definition sample_contract :: "('s, 'cop, 'kde, 'sc) library \<Rightarrow> bool" where
  "sample_contract L \<longleftrightarrow>
     (\<forall>g n s A s'. gm_sample L g n s = Inr (A, s') \<longrightarrow> shape0 A = n) \<and>
     (\<forall>c n s A s'. copula_sample L c n s = Inr (A, s') \<longrightarrow> shape0 A = n)"

section \<open>A deterministic stand-in for the collaborators\<close>

text \<open>
  To run the model on concrete inputs the collaborators are replaced by deterministic
  functions that meet the contracts above and keep the argument checks the libraries
  document: a mixture cannot be fitted to fewer rows than it has components and cannot
  be sampled fewer than once (scikit-learn raises ValueError), a draw without
  replacement cannot exceed the population, a draw cannot have a negative size. The
  random state is a counter of the draws made.
\<close>

definition stub_gm_fit :: "nat \<Rightarrow> int \<Rightarrow> ndarray2 \<Rightarrow> py_error + gmm" where
  "stub_gm_fit k random_state X =
     (if shape0 X < k then Inl ValueError
      else Inr \<lparr>weights = replicate k (1 / real k), means = take k (rows X),
                covariances = replicate k []\<rparr>)"

definition stub_gm_bic :: "gmm \<Rightarrow> ndarray2 \<Rightarrow> real" where
  "stub_gm_bic g X = real (length (weights g) mod 3)"

definition cycle :: "'a list \<Rightarrow> nat \<Rightarrow> 'a list" where
  "cycle xs n = map (\<lambda>i. xs ! (i mod length xs)) [0..<n]"

definition stub_gm_sample :: "gmm \<Rightarrow> nat \<Rightarrow> nat \<Rightarrow> py_error + (ndarray2 \<times> nat)" where
  "stub_gm_sample g n s =
     (if n < 1 \<or> means g = [] then Inl ValueError
      else Inr (\<lparr>ncols = length (hd (means g)), rows = cycle (means g) n\<rparr>, Suc s))"

definition stub_copula_fit :: "ndarray2 \<Rightarrow> nat \<Rightarrow> py_error + (ndarray2 \<times> nat)" where
  "stub_copula_fit X s = (if rows X = [] then Inl LibraryError else Inr (X, s))"

definition stub_copula_sample :: "ndarray2 \<Rightarrow> nat \<Rightarrow> nat \<Rightarrow> py_error + (ndarray2 \<times> nat)" where
  "stub_copula_sample c n s = Inr (\<lparr>ncols = ncols c, rows = cycle (rows c) n\<rparr>, Suc s)"

definition stub_kde_fit :: "real list \<Rightarrow> nat \<Rightarrow> py_error + (real list \<times> nat)" where
  "stub_kde_fit col s = (if col = [] then Inl LibraryError else Inr (col, s))"

definition stub_kde_sample :: "real list \<Rightarrow> nat \<Rightarrow> nat \<Rightarrow> py_error + (real list \<times> nat)" where
  "stub_kde_sample k n s = Inr (cycle k n, Suc s)"

definition stub_choice :: "nat list \<Rightarrow> int \<Rightarrow> bool \<Rightarrow> nat \<Rightarrow> py_error + (nat list \<times> nat)" where
  "stub_choice pop k replace s =
     (if k < 0 then Inl ValueError
      else if replace then
        (if pop = [] \<and> 0 < k then Inl ValueError else Inr (cycle pop (nat k), Suc s))
      else if int (length pop) < k then Inl ValueError
      else Inr (take (nat k) (rev pop), Suc s))"

definition stub_uniform :: "real \<Rightarrow> real \<Rightarrow> nat \<Rightarrow> nat \<Rightarrow> real list \<times> nat" where
  "stub_uniform lo hi n s = (replicate n ((lo + hi) / 2), Suc s)"

definition toy_X :: ndarray2 where
  "toy_X = \<lparr>ncols = 1, rows = [[1], [2], [3], [4], [5], [6]]\<rparr>"

definition toy_y :: "int list" where
  "toy_y = [0, 1, 0, 1, 0, 1]"

definition stub_split ::
  "ndarray2 \<Rightarrow> int list \<Rightarrow> real \<Rightarrow> nat \<Rightarrow>
     py_error + ((ndarray2 \<times> ndarray2 \<times> int list \<times> int list) \<times> nat)"
where
  "stub_split X y ts s =
     (if length y \<noteq> shape0 X then Inl ValueError
      else
        let n_test = nat \<lceil>ts * real (length y)\<rceil>;
            n_train = length y - n_test
        in Inr ((\<lparr>ncols = ncols X, rows = take n_train (rows X)\<rparr>,
                 \<lparr>ncols = ncols X, rows = drop n_train (rows X)\<rparr>,
                 take n_train y, drop n_train y), Suc s))"

definition stub_library :: "(nat, ndarray2, real list, unit) library" where
  "stub_library =
     \<lparr>gm_fit = stub_gm_fit, gm_bic = stub_gm_bic, gm_sample = stub_gm_sample,
      copula_fit = stub_copula_fit, copula_sample = stub_copula_sample,
      kde_fit = stub_kde_fit, kde_sample = stub_kde_sample,
      random_choice = stub_choice, random_uniform = stub_uniform,
      random_shuffle = (\<lambda>xs s. (rev xs, Suc s)),
      set_seed = (\<lambda>random_state s. 0),
      load_dataset = (\<lambda>name. Inr (toy_X, toy_y)),
      dependency_table = (\<lambda>name. None),
      train_test_split = stub_split,
      scaler_fit = (\<lambda>X. Inr ()),
      scaler_transform = (\<lambda>scaler X. Inr X)\<rparr>"

definition synth_X :: ndarray2 where
  "synth_X = \<lparr>ncols = 1, rows = [[1], [2], [3], [4], [5], [6], [7], [8], [9], [10], [11]]\<rparr>"

definition synth_y :: "int list" where
  "synth_y = [0, 0, 0, 0, 0, 0, 0, 0, 0, 1, 1]"

definition toy_generator :: data_generator where
  "toy_generator = \<lparr>seed = 42, dataset = Some ''cardio'', test_size = 1 / 3,
     generate_duplicates = False, n_samples_threshold = 1000\<rparr>"

definition nine_X :: ndarray2 where
  "nine_X = \<lparr>ncols = 1, rows = [[1], [2], [3], [4], [5], [6], [7], [8], [9]]\<rparr>"


text \<open>What the stand-in returns for \<open>toy_X\<close> with one noise column: the noise column
  comes first after the column permutation.\<close>

definition toy_noisy_X :: ndarray2 where
  "toy_noisy_X =
     \<lparr>ncols = 2, rows = [[7 / 2, 1], [7 / 2, 2], [7 / 2, 3], [7 / 2, 4], [7 / 2, 5], [7 / 2, 6]]\<rparr>"

text \<open>Label vectors for \<open>synth_X\<close> without anomalies and without normal rows, the
  mixture the stand-in selects on \<open>synth_X\<close>, and its sample of eleven rows.\<close>

definition normal_only_y :: "int list" where
  "normal_only_y = replicate 11 0"

definition anomaly_only_y :: "int list" where
  "anomaly_only_y = replicate 11 1"

definition synth_gm :: gmm where
  "synth_gm = \<lparr>weights = [1 / 3, 1 / 3, 1 / 3], means = [[1], [2], [3]],
     covariances = [[], [], []]\<rparr>"

definition synth_sample_X :: ndarray2 where
  "synth_sample_X =
     \<lparr>ncols = 1, rows = [[1], [2], [3], [1], [2], [3], [1], [2], [3], [1], [2]]\<rparr>"

text \<open>The double printed as \<^verbatim>\<open>0.24999999999999997\<close>, which is \<open>1/4 - 2 powi (- 55)\<close>,
  the double printed as \<^verbatim>\<open>0.1\<close>, and two matrices of three columns with what the
  stand-in returns for them when one noise column is added.\<close>

definition below_quarter :: real where
  "below_quarter = 9007199254740991 / 36028797018963968"

definition double_tenth :: real where
  "double_tenth = 3602879701896397 / 36028797018963968"

definition wide_X :: ndarray2 where
  "wide_X = \<lparr>ncols = 3, rows = [[1, 10, 100], [2, 20, 200]]\<rparr>"

definition wide_noisy_X :: ndarray2 where
  "wide_noisy_X = \<lparr>ncols = 4, rows = [[3 / 2, 100, 10, 1], [3 / 2, 200, 20, 2]]\<rparr>"

definition flat_X :: ndarray2 where
  "flat_X = \<lparr>ncols = 3, rows = [[4, 5, 6]]\<rparr>"

definition flat_noisy_X :: ndarray2 where
  "flat_noisy_X = \<lparr>ncols = 4, rows = [[4, 6, 5, 4]]\<rparr>"

text \<open>A training label vector with ten anomalies and no normal row.\<close>

definition ten_anomalies :: "int list" where
  "ten_anomalies = replicate 10 1"

text \<open>The stand-in with a fit that accepts any data, to follow the normal draw on a
  matrix without rows; that matrix, and the mixture this fit selects on it.\<close>

definition lenient_library :: "(nat, ndarray2, real list, unit) library" where
  "lenient_library =
     stub_library\<lparr>gm_fit := (\<lambda>k random_state X.
       Inr \<lparr>weights = replicate k (1 / real k), means = take k (rows X),
            covariances = replicate k []\<rparr>)\<rparr>"

definition empty_X :: ndarray2 where
  "empty_X = \<lparr>ncols = 1, rows = []\<rparr>"

definition empty_gm :: gmm where
  "empty_gm = \<lparr>weights = [1 / 3, 1 / 3, 1 / 3], means = [], covariances = [[], [], []]\<rparr>"

section \<open>Facts about the model\<close>

subsection \<open>Sequencing and rounding\<close>

lemma and_then_Inl [simp]: "and_then (Inl e) f = Inl e"
  by (simp add: and_then_def)

lemma and_then_Inr [simp]: "and_then (Inr v) f = f v"
  by (simp add: and_then_def)

lemma and_then_eq_Inr: "and_then m f = Inr r \<longleftrightarrow> (\<exists>v. m = Inr v \<and> f v = Inr r)"
  by (cases m) simp_all

lemma py_int_nonneg: "0 \<le> x \<Longrightarrow> py_int x = \<lfloor>x\<rfloor>"
  by (simp add: py_int_def)

subsection \<open>Rounding to a double\<close>

lemma binade_lower:
  assumes "0 < x"
  shows "2 powi (binade x) \<le> x"
proof (cases "1 \<le> x")
  case True
  then have pos: "0 < nat \<lfloor>x\<rfloor>" by simp
  from floorlog_bounds [OF pos, of 2] have "2 ^ (floorlog 2 (nat \<lfloor>x\<rfloor>) - 1) \<le> nat \<lfloor>x\<rfloor>"
    by simp
  then have "(2::real) ^ (floorlog 2 (nat \<lfloor>x\<rfloor>) - 1) \<le> real (nat \<lfloor>x\<rfloor>)"
    by (metis of_nat_le_iff of_nat_numeral of_nat_power)
  also have "\<dots> \<le> x" using True by simp
  finally have "(2::real) ^ (floorlog 2 (nat \<lfloor>x\<rfloor>) - 1) \<le> x" .
  moreover have "0 < floorlog 2 (nat \<lfloor>x\<rfloor>)"
    using pos by (simp add: floorlog_eq_zero_iff zero_less_iff_neq_zero)
  moreover have "nat (int (floorlog 2 (nat \<lfloor>x\<rfloor>)) - 1) = floorlog 2 (nat \<lfloor>x\<rfloor>) - 1"
    by linarith
  ultimately show ?thesis
    using True by (simp add: binade_def power_int_def)
next
  case False
  let ?c = "nat (\<lceil>1 / x\<rceil> - 1)"
  from False assms have y: "1 < 1 / x" by simp
  then have c: "0 < ?c" by simp
  from y have "0 \<le> \<lceil>1 / x\<rceil> - 1" by linarith
  then have "real ?c = real_of_int (\<lceil>1 / x\<rceil> - 1)" by (rule of_nat_nat)
  then have rc: "real ?c = real_of_int \<lceil>1 / x\<rceil> - 1" by (simp only: of_int_diff of_int_1)
  have "1 / x \<le> real_of_int \<lceil>1 / x\<rceil>" by simp
  also have "\<dots> = real ?c + 1" using rc by simp
  also have "\<dots> \<le> 2 ^ floorlog 2 ?c"
  proof -
    have "(1::nat) < 2" by simp
    from floorlog_bounds [OF c this] have "?c < 2 ^ floorlog 2 ?c" by blast
    then have "Suc ?c \<le> 2 ^ floorlog 2 ?c" by (rule Suc_leI)
    then have "real (Suc ?c) \<le> real (2 ^ floorlog 2 ?c)" by (rule of_nat_mono)
    then show ?thesis by (simp only: of_nat_Suc of_nat_power of_nat_numeral)
  qed
  finally have "1 / x \<le> 2 ^ floorlog 2 ?c" .
  then have "1 / 2 ^ floorlog 2 ?c \<le> x"
    using assms by (simp add: field_simps)
  moreover have "(2::real) powi (- int (floorlog 2 ?c)) = 1 / 2 ^ floorlog 2 ?c"
    by (simp add: power_int_minus_divide)
  ultimately show ?thesis
    using False by (simp only: binade_def if_False)
qed

lemma binade_upper:
  assumes "0 < x"
  shows "x < 2 powi (binade x + 1)"
proof (cases "1 \<le> x")
  case True
  let ?n = "nat \<lfloor>x\<rfloor>"
  from True have pos: "0 < ?n" by simp
  have two: "(1::nat) < 2" by simp
  from floorlog_bounds [OF pos two] have "?n < 2 ^ floorlog 2 ?n" by blast
  then have "Suc ?n \<le> 2 ^ floorlog 2 ?n" by (rule Suc_leI)
  then have "real (Suc ?n) \<le> real (2 ^ floorlog 2 ?n)" by (rule of_nat_mono)
  then have le: "real ?n + 1 \<le> 2 ^ floorlog 2 ?n"
    by (simp only: of_nat_Suc of_nat_power of_nat_numeral)
  have "real ?n = real_of_int \<lfloor>x\<rfloor>"
    using True by (intro of_nat_nat) simp
  then have "x < real ?n + 1" by linarith
  with le have "x < 2 ^ floorlog 2 ?n" by linarith
  moreover have "(2::real) powi (int (floorlog 2 ?n) - 1 + 1) = 2 ^ floorlog 2 ?n"
    by (simp add: power_int_def)
  ultimately show ?thesis
    using True by (simp only: binade_def if_True)
next
  case False
  let ?c = "nat (\<lceil>1 / x\<rceil> - 1)"
  let ?k = "floorlog 2 ?c"
  from False assms have y: "1 < 1 / x" by simp
  then have nonneg: "0 \<le> \<lceil>1 / x\<rceil> - 1" by linarith
  from y have c: "0 < ?c" by simp
  have two: "(1::nat) < 2" by simp
  from floorlog_bounds [OF c two] have "2 ^ (?k - 1) \<le> ?c" by blast
  then have "real (2 ^ (?k - 1)) \<le> real ?c" by (rule of_nat_mono)
  then have "(2::real) ^ (?k - 1) \<le> real ?c"
    by (simp only: of_nat_power of_nat_numeral)
  also have "real ?c = real_of_int (\<lceil>1 / x\<rceil> - 1)"
    using nonneg by (rule of_nat_nat)
  also have "\<dots> < 1 / x" by linarith
  finally have "(2::real) ^ (?k - 1) < 1 / x" .
  then have lt: "x < 1 / 2 ^ (?k - 1)"
    using assms by (simp add: field_simps)
  have k: "0 < ?k"
    using c by (simp add: floorlog_eq_zero_iff zero_less_iff_neq_zero)
  then have "- int ?k + 1 = - int (?k - 1)" by linarith
  then have "(2::real) powi (- int ?k + 1) = 1 / 2 ^ (?k - 1)"
    by (simp only: power_int_minus_divide power_int_of_nat)
  with lt show ?thesis
    using False by (simp only: binade_def if_False)
qed

lemma overflow_code [code]: "overflow v \<longleftrightarrow> v \<noteq> 0 \<and> 1024 \<le> binade \<bar>v\<bar>"
proof (cases "v = 0")
  case True
  then show ?thesis by (simp add: overflow_def)
next
  case False
  then have a: "0 < \<bar>v\<bar>" by simp
  have "2 ^ 1024 \<le> \<bar>v\<bar> \<longleftrightarrow> 1024 \<le> binade \<bar>v\<bar>"
  proof
    assume big: "2 ^ 1024 \<le> \<bar>v\<bar>"
    show "1024 \<le> binade \<bar>v\<bar>"
    proof (rule ccontr)
      assume "\<not> 1024 \<le> binade \<bar>v\<bar>"
      then have "binade \<bar>v\<bar> + 1 \<le> 1024" by simp
      then have "(2::real) powi (binade \<bar>v\<bar> + 1) \<le> 2 powi 1024"
        by (intro power_int_increasing) simp_all
      with binade_upper [OF a] have "\<bar>v\<bar> < 2 powi 1024" by linarith
      with big show False by simp
    qed
  next
    assume "1024 \<le> binade \<bar>v\<bar>"
    then have "(2::real) powi 1024 \<le> 2 powi (binade \<bar>v\<bar>)"
      by (intro power_int_increasing) simp_all
    with binade_lower [OF a] show "2 ^ 1024 \<le> \<bar>v\<bar>" by simp
  qed
  with False show ?thesis by (simp add: overflow_def)
qed

lemma round_half_even_bounds: "\<lfloor>m\<rfloor> \<le> round_half_even m \<and> round_half_even m \<le> \<lceil>m\<rceil>"
proof -
  have "\<lceil>m\<rceil> = \<lfloor>m\<rfloor> + 1" if "m - of_int \<lfloor>m\<rfloor> \<noteq> 0"
    using that by (simp add: ceiling_altdef)
  moreover have "(0::real) < 1 / 2" by simp
  ultimately show ?thesis
    unfolding round_half_even_def Let_def
    by (smt (verit) ceiling_le_iff floor_le_ceiling of_int_floor_le)
qed

lemma round_half_even_of_int [simp]: "round_half_even (of_int k) = k"
  by (simp add: round_half_even_def)

lemma quantum_pos: "0 < quantum a"
  by (simp add: quantum_def)

lemma quantum_ge_min: "2 powi (- 1074) \<le> quantum a"
proof -
  have "(- 1074 :: int) \<le> max (binade a) (- 1022) - 52" by simp
  then show ?thesis
    unfolding quantum_def by (intro power_int_increasing) simp_all
qed

lemma quantum_le: 
  assumes "2 powi (- 1074) \<le> a"
  shows "quantum a \<le> a"
proof (cases "- 1022 \<le> binade a")
  case True
  have a: "0 < a" using assms by (rule less_le_trans [rotated]) simp
  from True have "quantum a = 2 powi (binade a - 52)"
    by (simp add: quantum_def max_def)
  also have "\<dots> \<le> 2 powi (binade a)"
    by (intro power_int_increasing) simp_all
  also have "\<dots> \<le> a" by (rule binade_lower [OF a])
  finally show ?thesis .
next
  case False
  then have "quantum a = 2 powi (- 1074)"
    by (simp add: quantum_def max_def)
  with assms show ?thesis by simp
qed

lemma round_double_nonneg: "0 \<le> x \<Longrightarrow> 0 \<le> round_double x"
proof -
  assume x: "0 \<le> x"
  have "0 \<le> \<lfloor>\<bar>x\<bar> / quantum \<bar>x\<bar>\<rfloor>"
    using quantum_pos [of "\<bar>x\<bar>"] by simp
  then have "0 \<le> round_half_even (\<bar>x\<bar> / quantum \<bar>x\<bar>)"
    using round_half_even_bounds [of "\<bar>x\<bar> / quantum \<bar>x\<bar>"] by linarith
  then show ?thesis
    using x quantum_pos [of "\<bar>x\<bar>"] by (simp add: round_double_def sgn_if)
qed

lemma round_double_pos:
  assumes "2 powi (- 1074) \<le> x"
  shows "0 < round_double x"
proof -
  have x: "0 < x" using assms by (rule less_le_trans [rotated]) simp
  have "1 \<le> x / quantum x"
    using quantum_le [OF assms] quantum_pos [of x] by simp
  then have "1 \<le> \<lfloor>x / quantum x\<rfloor>" by simp
  then have "1 \<le> round_half_even (x / quantum x)"
    using round_half_even_bounds [of "x / quantum x"] by linarith
  then have "0 < real_of_int (round_half_even (x / quantum x)) * quantum x"
    using quantum_pos [of x] by simp
  then show ?thesis
    using x by (simp add: round_double_def)
qed

lemma quantum_divides_nat:
  assumes "0 < a" and "a < 2 ^ 53"
  shows "\<exists>N :: int. real n / quantum a = of_int N"
proof -
  have "2 powi (binade a) < (2 :: real) powi 53"
    using binade_lower [OF assms(1)] assms(2) by simp
  then have "binade a < 53"
    by (intro power_int_le_imp_less_exp [of "2 :: real"]) simp_all
  then have e: "max (binade a) (- 1022) - 52 \<le> 0" by simp
  define k where "k = nat (- (max (binade a) (- 1022) - 52))"
  from e have "quantum a = 1 / 2 ^ k"
    by (simp add: quantum_def k_def power_int_def field_simps)
  then have "real n / quantum a = of_int (int n * 2 ^ k)" by simp
  then show ?thesis by blast
qed

lemma round_double_le_nat:
  assumes "0 \<le> x" and "x \<le> real n" and "n < 2 ^ 53"
  shows "round_double x \<le> real n"
proof (cases "x = 0")
  case True
  then show ?thesis by (simp add: round_double_def)
next
  case False
  with assms(1) have x: "0 < x" by simp
  from assms(2,3) have "x < 2 ^ 53"
    by (metis le_less_trans of_nat_less_iff of_nat_numeral of_nat_power)
  from quantum_divides_nat [OF x this, of n] obtain N :: int where
    N: "real n / quantum x = of_int N" by blast
  have "x / quantum x \<le> real n / quantum x"
    using assms(2) quantum_pos [of x] by (simp add: divide_right_mono)
  then have "\<lceil>x / quantum x\<rceil> \<le> N"
    unfolding N by (simp add: ceiling_le_iff)
  then have "round_half_even (x / quantum x) \<le> N"
    using round_half_even_bounds [of "x / quantum x"] by linarith
  then have "real_of_int (round_half_even (x / quantum x)) * quantum x \<le> of_int N * quantum x"
    using quantum_pos [of x] by (simp add: mult_right_mono)
  also have "\<dots> = real n"
    using N quantum_pos [of x] by (simp add: field_simps)
  finally show ?thesis
    using x by (simp add: round_double_def)
qed

lemma round_double_nat:
  assumes "n < 2 ^ 53"
  shows "round_double (real n) = real n"
proof (cases "n = 0")
  case True
  then show ?thesis by (simp add: round_double_def)
next
  case False
  then have x: "0 < real n" by simp
  from assms have "real n < 2 ^ 53"
    by (metis of_nat_less_iff of_nat_numeral of_nat_power)
  from quantum_divides_nat [OF x this, of n] obtain N :: int where
    N: "real n / quantum (real n) = of_int N" by blast
  then have "real_of_int (round_half_even (real n / quantum (real n))) * quantum (real n) =
             of_int N * quantum (real n)"
    by simp
  also have "\<dots> = real n"
    using N quantum_pos [of "real n"] by (simp add: field_simps)
  finally show ?thesis
    using x by (simp add: round_double_def)
qed

lemma positive_double:
  assumes "is_double f" and "0 < f"
  shows "2 powi (- 1074) \<le> f"
proof -
  from assms have f: "f = real_of_int (round_half_even (f / quantum f)) * quantum f"
    by (simp add: is_double_def round_double_def)
  with assms(2) quantum_pos [of f] have "0 < real_of_int (round_half_even (f / quantum f))"
    by (metis zero_less_mult_pos2)
  then have "1 \<le> real_of_int (round_half_even (f / quantum f))"
    by simp
  then have "quantum f \<le> real_of_int (round_half_even (f / quantum f)) * quantum f"
    using quantum_pos [of f] by simp
  with f quantum_ge_min [of f] show ?thesis by simp
qed

lemma float_times_int_bounds:
  assumes "0 \<le> f" and "f \<le> 1" and "n < 2 ^ 53"
  shows "0 \<le> float_times_int f n" and "float_times_int f n \<le> real n"
    and "\<not> overflow (float_times_int f n)"
proof -
  have v: "float_times_int f n = round_double (f * real n)"
    by (simp add: float_times_int_def round_double_nat [OF assms(3)])
  have x: "0 \<le> f * real n" "f * real n \<le> real n"
    using assms(1,2) by (simp_all add: mult_left_le_one_le)
  show lo: "0 \<le> float_times_int f n"
    unfolding v by (rule round_double_nonneg [OF x(1)])
  show hi: "float_times_int f n \<le> real n"
    unfolding v by (rule round_double_le_nat [OF x assms(3)])
  have "real n < 2 ^ 53"
    using assms(3) by (metis of_nat_less_iff of_nat_numeral of_nat_power)
  also have "(2::real) ^ 53 \<le> 2 ^ 1024"
    by (intro power_increasing) simp_all
  finally have "float_times_int f n < 2 ^ 1024"
    using hi by linarith
  with lo show "\<not> overflow (float_times_int f n)"
    by (simp add: overflow_def)
qed

lemma float_times_int_pos:
  assumes "is_double f" and "0 < f" and "0 < n" and "n < 2 ^ 53"
  shows "0 < float_times_int f n"
proof -
  have "2 powi (- 1074) \<le> f"
    by (rule positive_double [OF assms(1,2)])
  also have "f \<le> f * real n"
    using assms(2,3) by simp
  finally have "0 < round_double (f * real n)"
    by (rule round_double_pos)
  then show ?thesis
    by (simp add: float_times_int_def round_double_nat [OF assms(4)])
qed

subsection \<open>The contracts in use\<close>

lemma gm_sample_rows:
  "sample_contract L \<Longrightarrow> gm_sample L g n s = Inr (A, s') \<Longrightarrow> shape0 A = n"
  unfolding sample_contract_def by blast

lemma copula_sample_rows:
  "sample_contract L \<Longrightarrow> copula_sample L c n s = Inr (A, s') \<Longrightarrow> shape0 A = n"
  unfolding sample_contract_def by blast

lemma uniform_length:
  "uniform_contract L \<Longrightarrow> random_uniform L lo hi n s = (u, s') \<Longrightarrow> length u = n"
  unfolding uniform_contract_def by (metis fst_conv)

lemma uniform_range:
  "uniform_contract L \<Longrightarrow> random_uniform L lo hi n s = (u, s') \<Longrightarrow> lo \<le> hi \<Longrightarrow>
     v \<in> set u \<Longrightarrow> lo \<le> v \<and> v \<le> hi"
  unfolding uniform_contract_def by (metis fst_conv)

subsection \<open>The sizes of the synthetic blocks\<close>

lemma global_columns_Cons:
  assumes "global_columns L Xn p pts_a (i # rest) s = Inr (cols, s')"
  obtains mn mx u s1 cols' where
    "np_min (column Xn i) = Inr mn" "np_max (column Xn i) = Inr mx"
    "random_uniform L (mn * (1 + p)) (mx * (1 + p)) pts_a s = (u, s1)"
    "global_columns L Xn p pts_a rest s1 = Inr (cols', s')" "cols = u # cols'"
proof -
  from assms obtain mn mx where
    mn: "np_min (column Xn i) = Inr mn" and mx: "np_max (column Xn i) = Inr mx"
    by (auto simp: and_then_eq_Inr)
  obtain u s1 where u: "random_uniform L (mn * (1 + p)) (mx * (1 + p)) pts_a s = (u, s1)"
    by (cases "random_uniform L (mn * (1 + p)) (mx * (1 + p)) pts_a s")
  from assms mn mx u obtain cols' where
    "global_columns L Xn p pts_a rest s1 = Inr (cols', s')" "cols = u # cols'"
    by (auto simp: and_then_eq_Inr Let_def)
  with mn mx u that show thesis by blast
qed

lemma shape0_from_columns: "shape0 (from_columns n cols) = n"
  by (simp add: shape0_def from_columns_def)

lemma global_columns_lengths:
  assumes "uniform_contract L"
      and "global_columns L Xn p pts_a is s = Inr (cols, s')"
  shows "length cols = length is \<and> list_all (\<lambda>c. length c = pts_a) cols"
  using assms(2)
proof (induction "is" arbitrary: s cols s')
  case Nil
  then show ?case by simp
next
  case (Cons i rest)
  from Cons.prems obtain mn mx u s1 cols' where
    u: "random_uniform L (mn * (1 + p)) (mx * (1 + p)) pts_a s = (u, s1)" and
    rec: "global_columns L Xn p pts_a rest s1 = Inr (cols', s')" and
    cols: "cols = u # cols'"
    by (rule global_columns_Cons)
  from uniform_length [OF assms(1) u] Cons.IH [OF rec] cols show ?case by simp
qed

lemma np_array_T_shape:
  assumes "np_array_T cols = Inr Xa" and "list_all (\<lambda>c. length c = n) cols"
  shows "shape0 Xa = n \<and> shape1 Xa = length cols \<and> cols \<noteq> []"
  using assms
  by (cases cols) (auto simp: np_array_T_def shape0_def shape1_def from_columns_def
      split: if_splits)

lemma synthetic_anomalies_rows:
  assumes "sample_contract L" and "uniform_contract L"
      and "synthetic_anomalies L gm X Xn pts_a mode alpha p s = Inr (Xa, s')"
  shows "shape0 Xa = pts_a"
proof -
  consider (l) "mode = ''local''" | (c) "mode = ''cluster''" | (d) "mode = ''dependency''"
    | (g) "mode = ''global''"
    | (o) "mode \<noteq> ''local''" "mode \<noteq> ''cluster''" "mode \<noteq> ''dependency''" "mode \<noteq> ''global''"
    by blast
  then show ?thesis
  proof cases
    case l
    with assms(3) show ?thesis
      by (auto simp: synthetic_anomalies_def split: option.splits
          dest: gm_sample_rows [OF assms(1)])
  next
    case c
    with assms(3) show ?thesis
      by (auto simp: synthetic_anomalies_def split: option.splits
          dest: gm_sample_rows [OF assms(1)])
  next
    case d
    with assms(3) show ?thesis
      by (auto simp: synthetic_anomalies_def and_then_eq_Inr shape0_from_columns)
  next
    case g
    with assms(3) obtain cols s1 where
      gc: "global_columns L Xn p pts_a [0..<shape1 Xn] s = Inr (cols, s1)" and
      T: "np_array_T cols = Inr Xa"
      by (auto simp: synthetic_anomalies_def and_then_eq_Inr)
    from global_columns_lengths [OF assms(2) gc] np_array_T_shape [OF T]
    show ?thesis by blast
  next
    case o
    with assms(3) show ?thesis by (simp add: synthetic_anomalies_def)
  qed
qed

lemma synthetic_normal_rows:
  assumes "sample_contract L"
      and "synthetic_normal L rs X pts_n mode s = Inr ((gm, X1, Xn), s')"
  shows "shape0 Xn = pts_n"
  using assms(2)
  unfolding synthetic_normal_def
  by (auto simp: and_then_eq_Inr Let_def split: if_splits
      dest: gm_sample_rows [OF assms(1)] copula_sample_rows [OF assms(1)])

lemma generate_realistic_synthetic_stages:
  assumes "generate_realistic_synthetic L self X y mode alpha p s = Inr ((X', y'), s')"
  shows "\<exists>X0 gm X1 Xn s1 Xa.
           mode \<in> set [''local'', ''cluster'', ''dependency'', ''global''] \<and>
           np_mask_rows X y 0 = Inr X0 \<and>
           synthetic_normal L (seed self) X0 (length (np_where_eq y 0)) mode s = Inr ((gm, X1, Xn), s1) \<and>
           synthetic_anomalies L gm X1 Xn (length (np_where_eq y 1)) mode alpha p s1 = Inr (Xa, s') \<and>
           shape1 Xn = shape1 Xa \<and>
           X' = \<lparr>ncols = ncols Xn, rows = rows Xn @ rows Xa\<rparr> \<and>
           y' = replicate (shape0 Xn) 0 @ replicate (shape0 Xa) 1"
  using assms
  unfolding generate_realistic_synthetic_def Let_def np_concatenate0_def
  by (auto simp: and_then_eq_Inr split: if_splits)

subsection \<open>The stand-in meets the contracts\<close>

lemma length_cycle: "length (cycle xs n) = n"
  by (simp add: cycle_def)

lemma set_cycle: "xs \<noteq> [] \<Longrightarrow> set (cycle xs n) \<subseteq> set xs"
  by (auto simp: cycle_def)


lemma stub_uniform_contract: "uniform_contract stub_library"
  by (auto simp: uniform_contract_def stub_library_def stub_uniform_def)

lemma mset_take_subseteq: "mset (take k xs) \<subseteq># mset xs"
  by (metis append_take_drop_id mset_append mset_subset_eq_add_left)

lemma stub_choice_contract: "choice_contract stub_library"
proof -
  have "0 \<le> k \<and> length idx = nat k \<and> set idx \<subseteq> set pop \<and>
        (\<not> replace \<longrightarrow> mset idx \<subseteq># mset pop)"
    if "stub_choice pop k replace s = Inr (idx, s')" for pop k replace s idx s'
  proof (cases replace)
    case True
    with that have k: "0 \<le> k" and idx: "idx = cycle pop (nat k)" and ne: "pop \<noteq> [] \<or> k = 0"
      by (auto simp: stub_choice_def split: if_splits)
    from ne idx have "set idx \<subseteq> set pop"
      by (auto simp: cycle_def)
    with True k idx show ?thesis by (simp add: length_cycle)
  next
    case False
    with that have k: "0 \<le> k" "k \<le> int (length pop)" and idx: "idx = take (nat k) (rev pop)"
      by (auto simp: stub_choice_def split: if_splits)
    have "mset idx \<subseteq># mset pop"
      using mset_take_subseteq [of "nat k" "rev pop"] by (simp add: idx)
    moreover from this have "set idx \<subseteq> set pop"
      using set_mset_mono by fastforce
    ultimately show ?thesis using k idx by simp
  qed
  then show ?thesis
    unfolding choice_contract_def stub_library_def by simp
qed

lemma stub_choice_succeeds: "choice_succeeds stub_library"
  by (simp add: choice_succeeds_def stub_library_def stub_choice_def)

subsection \<open>Model selection\<close>

lemma bic_search_all:
  assumes "bic_search L rs X ks = Inr ms"
  shows "(\<forall>k \<in> set ks. \<exists>g. gm_fit L k rs X = Inr g) \<and>
         ms = map (\<lambda>k. gm_bic L (projr (gm_fit L k rs X)) X) ks"
  using assms
  by (induction ks arbitrary: ms) (auto simp: and_then_eq_Inr)

lemma np_argmin_first:
  assumes "np_argmin ms = Inr i"
  shows "i < length ms \<and> (\<forall>j < length ms. ms ! i \<le> ms ! j) \<and> (\<forall>j < i. ms ! i < ms ! j)"
proof -
  let ?P = "\<lambda>x. x \<noteq> Min (set ms)"
  from assms have ne: "ms \<noteq> []" and i: "i = length (takeWhile ?P ms)"
    by (auto simp: np_argmin_def split: if_splits)
  from ne have "Min (set ms) \<in> set ms"
    by (intro Min_in) simp_all
  then have "takeWhile ?P ms \<noteq> ms"
    by (simp add: takeWhile_eq_all_conv)
  moreover have "takeWhile ?P ms = take i ms"
    unfolding i by (rule takeWhile_eq_take)
  ultimately have lt: "i < length ms"
    by (cases "i < length ms") simp_all
  then have at: "ms ! i = Min (set ms)"
    unfolding i using nth_length_takeWhile [of ?P ms] by blast
  have le: "ms ! i \<le> ms ! j" if "j < length ms" for j
    using that at by simp
  have "ms ! i < ms ! j" if "j < i" for j
  proof -
    from that have "ms ! j \<in> set (takeWhile ?P ms)"
      unfolding i by (metis nth_mem takeWhile_nth)
    then have "ms ! j \<noteq> Min (set ms)"
      using set_takeWhileD [of "ms ! j" ?P ms] by blast
    moreover have "ms ! i \<le> ms ! j"
      using le that lt by simp
    ultimately show ?thesis using at by simp
  qed
  with lt le show ?thesis by blast
qed

lemma n_components_list_nth: "i < 9 \<Longrightarrow> n_components_list ! i = Suc i"
  by (simp add: n_components_list_def)

lemma set_n_components_list: "set n_components_list = {1..9}"
  by (auto simp: n_components_list_def)

lemma synthetic_normal_selection:
  assumes "mode \<in> set [''local'', ''cluster'', ''global'']"
      and "synthetic_normal L rs X pts_n mode s = Inr ((gm, X1, Xn), s')"
  shows "\<exists>fit best.
           (\<forall>k \<in> {1..9}. gm_fit L k rs X = Inr (fit k)) \<and>
           best \<in> {1..9} \<and>
           (\<forall>k \<in> {1..9}. gm_bic L (fit best) X \<le> gm_bic L (fit k) X) \<and>
           (\<forall>k \<in> {1..9}. k < best \<longrightarrow> gm_bic L (fit best) X < gm_bic L (fit k) X) \<and>
           gm = Some (fit best) \<and> X1 = X \<and>
           gm_sample L (fit best) pts_n s = Inr (Xn, s')"
proof -
  define fit where "fit k = projr (gm_fit L k rs X)" for k
  from assms obtain ms i g where
    search: "bic_search L rs X n_components_list = Inr ms" and
    argmin: "np_argmin ms = Inr i" and
    refit: "gm_fit L (n_components_list ! i) rs X = Inr g" and
    sample: "gm_sample L g pts_n s = Inr (Xn, s')" and
    gm: "gm = Some g" and X1: "X1 = X"
    unfolding synthetic_normal_def by (auto simp: and_then_eq_Inr Let_def split: if_splits)
  from bic_search_all [OF search] have
    all: "\<forall>k \<in> {1..9}. \<exists>g. gm_fit L k rs X = Inr g" and
    ms: "ms = map (\<lambda>k. gm_bic L (fit k) X) n_components_list"
    by (simp_all add: set_n_components_list fit_def)
  have len: "length ms = 9"
    by (simp add: ms n_components_list_def)
  have nth: "ms ! j = gm_bic L (fit (Suc j)) X" if "j < 9" for j
    using that by (simp add: ms n_components_list_def)
  from np_argmin_first [OF argmin] len have
    i: "i < 9" and
    least: "\<forall>j < 9. ms ! i \<le> ms ! j" and
    first: "\<forall>j < i. ms ! i < ms ! j"
    by simp_all
  let ?best = "Suc i"
  have best: "n_components_list ! i = ?best"
    by (rule n_components_list_nth [OF i])
  have fits: "\<forall>k \<in> {1..9}. gm_fit L k rs X = Inr (fit k)"
    using all by (auto simp: fit_def)
  have g: "g = fit ?best"
    using refit by (simp add: best fit_def)
  have "gm_bic L (fit ?best) X \<le> gm_bic L (fit k) X" if "k \<in> {1..9}" for k
  proof -
    from that obtain j where "k = Suc j" "j < 9"
      by (cases k) auto
    with least nth i show ?thesis by metis
  qed
  moreover have "gm_bic L (fit ?best) X < gm_bic L (fit k) X" if "k \<in> {1..9}" "k < ?best" for k
  proof -
    from that obtain j where "k = Suc j" "j < i"
      by (cases k) auto
    with first nth i show ?thesis
      by (metis less_trans)
  qed
  moreover have "?best \<in> {1..9}"
    using i by simp
  ultimately show ?thesis
    using fits g gm X1 sample by blast
qed

subsection \<open>The label partition\<close>

lemma distinct_np_where_eq: "distinct (np_where_eq y v)"
  by (simp add: np_where_eq_def)

lemma set_np_where_eq: "set (np_where_eq y v) = {i. i < length y \<and> y ! i = v}"
  by (auto simp: np_where_eq_def)

lemma distinct_mset_subseteq:
  assumes "mset xs \<subseteq># mset ys" and "distinct ys"
  shows "distinct xs"
proof -
  have "count (mset xs) a = (if a \<in> set xs then 1 else 0)" for a
  proof (cases "a \<in> set xs")
    case True
    have "count (mset xs) a \<le> count (mset ys) a"
      using assms(1) by (rule mset_subset_eq_count)
    also have "\<dots> \<le> 1"
      using assms(2) by (simp add: distinct_count_atmost_1)
    finally have "count (mset xs) a \<le> 1" .
    moreover from True have "0 < count (mset xs) a"
      by (metis count_greater_zero_iff set_mset_mset)
    ultimately have "count (mset xs) a = 1"
      by linarith
    with True show ?thesis by simp
  next
    case False
    then show ?thesis by (simp add: count_eq_zero_iff)
  qed
  then show ?thesis
    by (simp add: distinct_count_atmost_1)
qed

lemma choice_without_replacement:
  assumes "choice_contract L" and "random_choice L pop k False s = Inr (idx, s')"
  shows "0 \<le> k" and "length idx = nat k" and "set idx \<subseteq> set pop"
    and "distinct pop \<Longrightarrow> distinct idx"
proof -
  from assms have *: "0 \<le> k \<and> length idx = nat k \<and> set idx \<subseteq> set pop \<and> mset idx \<subseteq># mset pop"
    unfolding choice_contract_def by blast
  then show "0 \<le> k" "length idx = nat k" "set idx \<subseteq> set pop" by simp_all
  from * show "distinct idx" if "distinct pop"
    using that distinct_mset_subseteq by blast
qed

lemma choice_returns:
  assumes "choice_succeeds L" and "0 \<le> k" and "k \<le> int (length pop)"
  obtains idx s' where "random_choice L pop k False s = Inr (idx, s')"
  using assms unfolding choice_succeeds_def by (metis surj_pair)

lemma np_put_eq_Inr:
  "np_put y idx v = Inr y' \<longleftrightarrow>
     (\<forall>i \<in> set idx. i < length y) \<and>
     y' = map (\<lambda>i. if i \<in> set idx then v else y ! i) [0..<length y]"
  by (auto simp: np_put_def list_all_iff)

lemma label_partition_labels:
  assumes "select_labeled_anomalies L la alo (np_where_eq ytr 1) s = Inr (idx, s1)"
      and "set idx \<subseteq> set (np_where_eq ytr 1)"
      and "noise_type \<noteq> Some ''anomaly_contamination''"
  shows "label_partition L la alo noise_type ytr s =
           Inr (map (\<lambda>i. if i \<in> set idx then 1
                          else if ytr ! i = 0 \<or> ytr ! i = 1 then 0 else ytr ! i)
                  [0..<length ytr], s1)"
proof -
  let ?unl = "np_where_eq ytr 0 @ np_setdiff1d (np_where_eq ytr 1) idx"
  let ?y1 = "map (\<lambda>i. if i \<in> set ?unl then 0 else ytr ! i) [0..<length ytr]"
  have unl: "set ?unl = {i. i < length ytr \<and> (ytr ! i = 0 \<or> ytr ! i = 1 \<and> i \<notin> set idx)}"
    by (auto simp: np_setdiff1d_def set_np_where_eq)
  have p1: "np_put ytr ?unl 0 = Inr ?y1"
    unfolding np_put_eq_Inr using unl by auto
  have idx: "\<forall>i \<in> set idx. i < length ytr"
    using assms(2) by (auto simp: set_np_where_eq)
  have p2: "np_put ?y1 idx 1 =
              Inr (map (\<lambda>i. if i \<in> set idx then 1 else ?y1 ! i) [0..<length ytr])"
    unfolding np_put_eq_Inr using idx by simp
  have "map (\<lambda>i. if i \<in> set idx then 1 else ?y1 ! i) [0..<length ytr] =
        map (\<lambda>i. if i \<in> set idx then 1
                  else if ytr ! i = 0 \<or> ytr ! i = 1 then 0 else ytr ! i) [0..<length ytr]"
    unfolding unl by (rule map_cong) auto
  with p1 p2 assms(1,3) show ?thesis
    by (simp add: label_partition_def Let_def)
qed

lemma ones_of_partition:
  assumes "set idx \<subseteq> set (np_where_eq ytr 1)"
  shows "set (np_where_eq
            (map (\<lambda>i. if i \<in> set idx then 1
                       else if ytr ! i = 0 \<or> ytr ! i = 1 then 0 else ytr ! i)
               [0..<length ytr]) 1) = set idx"
  using assms by (auto simp: set_np_where_eq split: if_splits)

lemma prepare_data_label_contamination:
  "prepare_data L self la mode alpha percentage (Some ''label_contamination'') noise_ratio s =
   prepare_data L self la mode alpha percentage None noise_ratio s"
  by (simp add: prepare_data_def cong: if_cong)

subsection \<open>Alignment and binary labels\<close>

lemma binary_nth: "binary y \<Longrightarrow> i < length y \<Longrightarrow> y ! i = 0 \<or> y ! i = 1"
  by (simp add: binary_def list_all_length)

lemma binary_map_upt:
  "(\<And>i. i < n \<Longrightarrow> f i = 0 \<or> f i = 1) \<Longrightarrow> binary (map f [0..<n])"
  by (simp add: binary_def list_all_iff)

lemma synthesis_invariant:
  assumes "generate_realistic_synthetic L self X y mode alpha p s = Inr ((X', y'), s')"
  shows "row_aligned X' y' \<and> binary y'"
proof -
  from generate_realistic_synthetic_stages [OF assms]
  obtain Xn and Xa :: ndarray2 where
    "X' = \<lparr>ncols = ncols Xn, rows = rows Xn @ rows Xa\<rparr>"
    "y' = replicate (shape0 Xn) 0 @ replicate (shape0 Xa) 1"
    by blast
  then show ?thesis
    by (auto simp: row_aligned_def binary_def shape0_def list_all_iff)
qed

lemma duplicated_invariant:
  assumes "add_duplicated_anomalies L X y dt s = Inr ((X', y'), s')"
      and "row_aligned X y" and "binary y"
  shows "row_aligned X' y' \<and> binary y'"
proof (cases "dt \<le> 1")
  case True
  with assms show ?thesis by (simp add: add_duplicated_anomalies_def)
next
  case False
  with assms(1) obtain idx_a' s1 where
    rest: "(case random_shuffle L (np_where_eq y 0 @ idx_a') s1 of
              (idx, s2) \<Rightarrow>
                and_then (np_take_rows X idx) (\<lambda>X'.
                and_then (np_take y idx) (\<lambda>y'. Inr ((X', y'), s2)))) = Inr ((X', y'), s')"
    by (auto simp: add_duplicated_anomalies_def Let_def and_then_eq_Inr)
  obtain idx s2 where "random_shuffle L (np_where_eq y 0 @ idx_a') s1 = (idx, s2)"
    by (cases "random_shuffle L (np_where_eq y 0 @ idx_a') s1")
  with rest have
    X': "np_take_rows X idx = Inr X'" and y': "np_take y idx = Inr y'"
    by (auto simp: and_then_eq_Inr)
  from X' have "shape0 X' = length idx"
    by (auto simp: np_take_rows_def shape0_def split: if_splits)
  moreover from y' have "length y' = length idx" and in_range: "\<forall>i \<in> set idx. i < length y"
    and y'_def: "y' = map (\<lambda>i. y ! i) idx"
    by (auto simp: np_take_def list_all_iff split: if_splits)
  moreover have "binary y'"
    unfolding y'_def binary_def list_all_iff using in_range binary_nth [OF assms(3)] by auto
  ultimately show ?thesis by (simp add: row_aligned_def)
qed

lemma irrelevant_features_rows:
  assumes "add_irrelevant_features L X y r s = Inr ((X', y'), s')"
  shows "shape0 X' = shape0 X \<and> y' = y"
proof -
  have "shape0 X2 = shape0 X"
    if "np_concatenate1 X N = Inr X1" "np_take_cols X1 idx = Inr X2" for N X1 idx X2
    using that
    by (auto simp: np_concatenate1_def np_take_cols_def shape0_def split: if_splits)
  with assms show ?thesis
    unfolding add_irrelevant_features_def Let_def
    by (auto simp: and_then_eq_Inr split: if_splits)
qed

lemma contamination_invariant:
  assumes "add_label_contamination L X y r s = Inr ((X', y'), s')"
      and "row_aligned X y" and "binary y"
  shows "row_aligned X' y' \<and> binary y'"
proof (cases "r = 0")
  case True
  with assms show ?thesis by (simp add: add_label_contamination_def)
next
  case False
  with assms(1) obtain idx where
    X': "X' = X" and
    y': "y' = map (\<lambda>i. if i \<in> set idx then 1 - y ! i else y ! i) [0..<length y]"
    by (auto simp: add_label_contamination_def flip_labels_def and_then_eq_Inr
        split: if_splits)
  have "binary y'"
    unfolding y' using binary_nth [OF assms(3)] by (intro binary_map_upt) fastforce
  with assms(2) X' y' show ?thesis by (simp add: row_aligned_def)
qed

lemma partition_invariant:
  assumes "label_partition L la alo nt y s = Inr (y', s')"
      and "binary y"
  shows "length y' = length y \<and> binary y'"
proof -
  from assms(1) obtain unl idx y1 where
    p1: "np_put y unl 0 = Inr y1" and p2: "np_put y1 idx 1 = Inr y'"
    by (auto simp: label_partition_def Let_def and_then_eq_Inr split: if_splits)
  from p1 have y1: "y1 = map (\<lambda>i. if i \<in> set unl then 0 else y ! i) [0..<length y]"
    by (simp add: np_put_eq_Inr)
  then have len1: "length y1 = length y" by simp
  have b1: "binary y1"
    unfolding y1 using binary_nth [OF assms(2)] by (intro binary_map_upt) auto
  from p2 have y': "y' = map (\<lambda>i. if i \<in> set idx then 1 else y1 ! i) [0..<length y1]"
    by (simp add: np_put_eq_Inr)
  have "binary y'"
    unfolding y' using binary_nth [OF b1] by (intro binary_map_upt) auto
  with y' len1 show ?thesis by simp
qed

subsection \<open>Anomalies of the global mode\<close>

lemma column_from_columns:
  assumes "j < length cols" and "length (cols ! j) = n"
  shows "column (from_columns n cols) j = cols ! j"
proof -
  have "column (from_columns n cols) j = map (\<lambda>r. cols ! j ! r) [0..<n]"
    using assms(1) by (simp add: column_def from_columns_def)
  also have "\<dots> = cols ! j"
    using assms(2) by (metis map_nth)
  finally show ?thesis .
qed

lemma np_min_eq_Inr: "np_min xs = Inr m \<longleftrightarrow> xs \<noteq> [] \<and> m = Min (set xs)"
  by (auto simp: np_min_def)

lemma np_max_eq_Inr: "np_max xs = Inr m \<longleftrightarrow> xs \<noteq> [] \<and> m = Max (set xs)"
  by (auto simp: np_max_def)

lemma global_columns_draws:
  assumes "global_columns L Xn p pts_a is s = Inr (cols, s')"
  shows "length cols = length is \<and>
         (\<forall>k < length is.
            column Xn (is ! k) \<noteq> [] \<and>
            (\<exists>sk. cols ! k =
               fst (random_uniform L (Min (set (column Xn (is ! k))) * (1 + p))
                      (Max (set (column Xn (is ! k))) * (1 + p)) pts_a sk)))"
  using assms
proof (induction "is" arbitrary: s cols s')
  case Nil
  then show ?case by simp
next
  case (Cons i rest)
  from Cons.prems obtain mn mx u s1 cols' where
    mn: "np_min (column Xn i) = Inr mn" and mx: "np_max (column Xn i) = Inr mx" and
    u: "random_uniform L (mn * (1 + p)) (mx * (1 + p)) pts_a s = (u, s1)" and
    rec: "global_columns L Xn p pts_a rest s1 = Inr (cols', s')" and
    cols: "cols = u # cols'"
    by (rule global_columns_Cons)
  from mn mx have ne: "column Xn i \<noteq> []" and
    mn': "mn = Min (set (column Xn i))" and mx': "mx = Max (set (column Xn i))"
    by (simp_all add: np_min_eq_Inr np_max_eq_Inr)
  from u have hd: "u = fst (random_uniform L (Min (set (column Xn i)) * (1 + p))
                              (Max (set (column Xn i)) * (1 + p)) pts_a s)"
    by (simp add: mn' mx')
  from Cons.IH [OF rec] have len: "length cols' = length rest" and
    tl: "\<And>k. k < length rest \<Longrightarrow>
           column Xn (rest ! k) \<noteq> [] \<and>
           (\<exists>sk. cols' ! k =
              fst (random_uniform L (Min (set (column Xn (rest ! k))) * (1 + p))
                     (Max (set (column Xn (rest ! k))) * (1 + p)) pts_a sk))"
    by blast+
  have "column Xn ((i # rest) ! k) \<noteq> [] \<and>
        (\<exists>sk. cols ! k =
           fst (random_uniform L (Min (set (column Xn ((i # rest) ! k))) * (1 + p))
                  (Max (set (column Xn ((i # rest) ! k))) * (1 + p)) pts_a sk))"
    if "k < length (i # rest)" for k
  proof (cases k)
    case 0
    with ne hd cols show ?thesis by auto
  next
    case (Suc k')
    with that tl [of k'] cols show ?thesis by simp
  qed
  with len cols show ?case by simp
qed

lemma Min_le_Max_list: "xs \<noteq> [] \<Longrightarrow> Min (set xs) \<le> Max (set xs)"
  by (simp add: Min_le_iff)




subsection \<open>Irrelevant features\<close>

lemma choice_one:
  assumes "choice_contract L" and "random_choice L [0..<d] 1 replace s = Inr (idx, s')"
  obtains c where "idx = [c]" and "c < d"
proof -
  from assms have "length idx = nat 1 \<and> set idx \<subseteq> set [0..<d]"
    unfolding choice_contract_def by blast
  then have "length idx = 1" and sub: "set idx \<subseteq> set [0..<d]"
    by simp_all
  then obtain c where "idx = [c]"
    by (cases idx) auto
  with sub that show thesis by simp
qed

lemma take_one_column:
  assumes "np_take_cols X [c] = Inr Xsel"
  shows "concat (rows Xsel) = column X c"
proof -
  from assms have "rows Xsel = map (\<lambda>r. [r ! c]) (rows X)"
    by (auto simp: np_take_cols_def split: if_splits)
  then show ?thesis
    by (simp add: column_def)
qed

lemma noise_columns_Suc:
  assumes "choice_contract L" and "noise_columns L X (Suc k) s = Inr (cols, s')"
  obtains c s1 u s2 cols' where
    "c < shape1 X" "column X c \<noteq> []"
    "random_uniform L (Min (set (column X c))) (Max (set (column X c))) (shape0 X) s1 = (u, s2)"
    "noise_columns L X k s2 = Inr (cols', s')" "cols = u # cols'"
proof -
  from assms(2) obtain idx s1 Xsel mn mx where
    ch: "random_choice L [0..<shape1 X] 1 True s = Inr (idx, s1)" and
    sel: "np_take_cols X idx = Inr Xsel" and
    mn: "np_min (concat (rows Xsel)) = Inr mn" and
    mx: "np_max (concat (rows Xsel)) = Inr mx" and
    rest: "(case random_uniform L mn mx (shape0 X) s1 of
              (u, s2) \<Rightarrow> and_then (noise_columns L X k s2) (\<lambda>(us, s3). Inr (u # us, s3))) =
           Inr (cols, s')"
    by (auto simp: and_then_eq_Inr)
  from choice_one [OF assms(1) ch] obtain c where idx: "idx = [c]" and c: "c < shape1 X"
    by blast
  from sel idx have col: "concat (rows Xsel) = column X c"
    by (simp add: take_one_column)
  with mn mx have ne: "column X c \<noteq> []" and
    mn': "mn = Min (set (column X c))" and mx': "mx = Max (set (column X c))"
    by (simp_all add: np_min_eq_Inr np_max_eq_Inr)
  obtain u s2 where u: "random_uniform L mn mx (shape0 X) s1 = (u, s2)"
    by (cases "random_uniform L mn mx (shape0 X) s1")
  with rest obtain cols' where
    "noise_columns L X k s2 = Inr (cols', s')" "cols = u # cols'"
    by (auto simp: and_then_eq_Inr)
  with c ne u mn' mx' that show thesis by blast
qed

lemma noise_columns_spec:
  assumes "choice_contract L" and "uniform_contract L"
      and "noise_columns L X k s = Inr (cols, s')"
  shows "length cols = k \<and>
         (\<forall>col \<in> set cols.
            length col = shape0 X \<and>
            (\<exists>src < shape1 X.
               \<forall>v \<in> set col. Min (set (column X src)) \<le> v \<and> v \<le> Max (set (column X src))))"
  using assms(3)
proof (induction k arbitrary: s cols s')
  case 0
  then show ?case by simp
next
  case (Suc k)
  from noise_columns_Suc [OF assms(1) Suc.prems] obtain c s1 u s2 cols' where
    c: "c < shape1 X" and ne: "column X c \<noteq> []" and
    u: "random_uniform L (Min (set (column X c))) (Max (set (column X c))) (shape0 X) s1 =
          (u, s2)" and
    rec: "noise_columns L X k s2 = Inr (cols', s')" and cols: "cols = u # cols'"
    by blast
  have "length u = shape0 X"
    by (rule uniform_length [OF assms(2) u])
  moreover have "\<forall>v \<in> set u. Min (set (column X c)) \<le> v \<and> v \<le> Max (set (column X c))"
    using uniform_range [OF assms(2) u Min_le_Max_list [OF ne]] by blast
  ultimately show ?case
    using Suc.IH [OF rec] c cols by auto
qed

lemma column_take_cols:
  assumes "np_take_cols A idx = Inr B" and "p < length idx"
  shows "column B p = column A (idx ! p)"
  using assms by (auto simp: np_take_cols_def column_def split: if_splits)

lemma column_concatenate1:
  assumes "np_concatenate1 A B = Inr C" and "well_shaped A"
  shows "column C c = (if c < shape1 A then column A c else column B (c - shape1 A))"
proof -
  from assms(1) have len: "length (rows A) = length (rows B)" and
    C: "rows C = map2 (@) (rows A) (rows B)"
    by (auto simp: np_concatenate1_def shape0_def split: if_splits)
  from assms(2) have ws: "\<And>a. a \<in> set (rows A) \<Longrightarrow> length a = shape1 A"
    by (simp add: well_shaped_def list_all_iff shape1_def)
  have "column C c ! i = (if c < shape1 A then column A c else column B (c - shape1 A)) ! i"
    if "i < length (rows A)" for i
    using that len ws [of "rows A ! i"] by (simp add: column_def C nth_append)
  moreover have "length (column C c) =
                 length (if c < shape1 A then column A c else column B (c - shape1 A))"
    using len by (simp add: column_def C)
  ultimately show ?thesis
    using len by (intro nth_equalityI) (simp_all add: column_def C)
qed

lemma choice_permutation:
  assumes "choice_contract L" and "random_choice L [0..<m] (int m) False s = Inr (idx, s')"
  shows "length idx = m \<and> distinct idx \<and> set idx = {0..<m}"
proof -
  have len: "length idx = m"
    using choice_without_replacement(2) [OF assms] by simp
  have dist: "distinct idx"
    using choice_without_replacement(4) [OF assms] by simp
  have sub: "set idx \<subseteq> {0..<m}"
    using choice_without_replacement(3) [OF assms] by simp
  have "card (set idx) = m"
    using dist len by (simp add: distinct_card)
  with sub have "set idx = {0..<m}"
    by (intro card_subset_eq) simp_all
  with len dist show ?thesis by simp
qed

lemma noise_dim_nonneg:
  assumes "0 < r" and "r < 1" and "noise_dim_of r d = Inr noise_dim"
  shows "0 \<le> noise_dim"
proof -
  let ?denom = "round_double (1 - r)"
  let ?quot = "round_double (r / ?denom)"
  from assms(2) have "0 \<le> ?denom"
    by (intro round_double_nonneg) simp
  with assms(1) have "0 \<le> r / ?denom"
    by simp
  then have "0 \<le> ?quot"
    by (rule round_double_nonneg)
  moreover have "0 \<le> round_double (real d)"
    by (intro round_double_nonneg) simp
  ultimately have "0 \<le> ?quot * round_double (real d)"
    by (rule mult_nonneg_nonneg)
  then have "0 \<le> float_times_int ?quot d"
    unfolding float_times_int_def by (rule round_double_nonneg)
  moreover from assms(3) have "noise_dim = py_int (float_times_int ?quot d)"
    by (auto simp: noise_dim_of_def Let_def py_int_of_float_def split: if_splits)
  ultimately show ?thesis
    by (simp add: py_int_nonneg)
qed

subsection \<open>Target counts of zero\<close>

lemma synthetic_blocks:
  assumes "sample_contract L" and "uniform_contract L"
      and "generate_realistic_synthetic L self X y mode alpha p s = Inr ((X', y'), s')"
  shows "shape0 X' = length (np_where_eq y 0) + length (np_where_eq y 1) \<and>
         y' = replicate (length (np_where_eq y 0)) 0 @ replicate (length (np_where_eq y 1)) 1"
proof -
  from generate_realistic_synthetic_stages [OF assms(3)]
  obtain X0 gm X1 Xn s1 Xa where
    normal: "synthetic_normal L (seed self) X0 (length (np_where_eq y 0)) mode s =
               Inr ((gm, X1, Xn), s1)" and
    anom: "synthetic_anomalies L gm X1 Xn (length (np_where_eq y 1)) mode alpha p s1 =
             Inr (Xa, s')" and
    X': "X' = \<lparr>ncols = ncols Xn, rows = rows Xn @ rows Xa\<rparr>" and
    y': "y' = replicate (shape0 Xn) 0 @ replicate (shape0 Xa) 1"
    by blast
  from synthetic_normal_rows [OF assms(1) normal] synthetic_anomalies_rows [OF assms(1,2) anom]
  show ?thesis
    by (simp add: X' y' shape0_def)
qed

lemma global_needs_normal_rows:
  assumes "uniform_contract L"
      and "synthetic_anomalies L gm X Xn a ''global'' alpha p s = Inr (Xa, s')"
  shows "rows Xn \<noteq> []"
proof -
  from assms(2) obtain cols s1 where
    gc: "global_columns L Xn p a [0..<shape1 Xn] s = Inr (cols, s1)" and
    T: "np_array_T cols = Inr Xa"
    by (auto simp: synthetic_anomalies_def and_then_eq_Inr)
  from global_columns_lengths [OF assms(1) gc] have
    len: "length cols = shape1 Xn" and all: "list_all (\<lambda>c. length c = a) cols"
    by simp_all
  from np_array_T_shape [OF T all] have "cols \<noteq> []"
    by simp
  then have "0 < shape1 Xn"
    unfolding len [symmetric] by simp
  with global_columns_draws [OF gc] have "column Xn 0 \<noteq> []"
    by (metis diff_zero length_upt nth_upt add_0)
  then show ?thesis by (auto simp: column_def)
qed

lemma global_without_normal_rows:
  assumes "sample_contract L" and "uniform_contract L" and "length (np_where_eq y 0) = 0"
  shows "\<exists>e. generate_realistic_synthetic L self X y ''global'' alpha p s = Inl e"
proof (cases "generate_realistic_synthetic L self X y ''global'' alpha p s")
  case (Inl e)
  then show ?thesis by blast
next
  case (Inr r)
  then obtain X' y' s' where
    run: "generate_realistic_synthetic L self X y ''global'' alpha p s = Inr ((X', y'), s')"
    by (metis surj_pair)
  from generate_realistic_synthetic_stages [OF run]
  obtain X0 gm X1 Xn s1 Xa where
    normal: "synthetic_normal L (seed self) X0 (length (np_where_eq y 0)) ''global'' s =
               Inr ((gm, X1, Xn), s1)" and
    anom: "synthetic_anomalies L gm X1 Xn (length (np_where_eq y 1)) ''global'' alpha p s1 =
             Inr (Xa, s')"
    by blast
  from synthetic_normal_rows [OF assms(1) normal] assms(3) have "rows Xn = []"
    by (simp add: shape0_def)
  with global_needs_normal_rows [OF assms(2) anom] show ?thesis by simp
qed

lemma local_sampler_error:
  assumes "np_mask_rows X y 0 = Inr X0"
      and "synthetic_normal L (seed self) X0 (length (np_where_eq y 0)) ''local'' s =
             Inr ((Some g, X1, Xn), s1)"
      and "gm_sample L (scale_covariances alpha g) (length (np_where_eq y 1)) s1 = Inl e"
  shows "generate_realistic_synthetic L self X y ''local'' alpha p s = Inl e"
  using assms
  by (simp add: generate_realistic_synthetic_def synthetic_anomalies_def Let_def)

lemma cluster_sampler_error:
  assumes "np_mask_rows X y 0 = Inr X0"
      and "synthetic_normal L (seed self) X0 (length (np_where_eq y 0)) ''cluster'' s =
             Inr ((Some g, X1, Xn), s1)"
      and "gm_sample L (scale_means alpha g) (length (np_where_eq y 1)) s1 = Inl e"
  shows "generate_realistic_synthetic L self X y ''cluster'' alpha p s = Inl e"
  using assms
  by (simp add: generate_realistic_synthetic_def synthetic_anomalies_def Let_def)

section \<open>Claims\<close>



text \<open>
  C6. In the modes local, cluster and global, a call of
  \<^verbatim>\<open>generate_realistic_synthetic\<close> that returns has fitted a mixture to the normal rows
  for every component count from 1 to 9 (so a fit that raises, at any of the nine counts,
  makes the call raise: the search does not stop early); the component count it selects
  has the least BIC of the nine, and every smaller count has a strictly greater BIC (ties
  go to the lowest count); the mixture that is sampled for the synthetic normal
  population, the leading rows of the result, is the fit at the selected count.
\<close>

theorem bic_model_selection:
  assumes "mode \<in> set [''local'', ''cluster'', ''global'']"
      and "generate_realistic_synthetic L self X y mode alpha percentage s = Inr ((X', y'), s')"
  shows "\<exists>X0 fit best Xn s1.
           np_mask_rows X y 0 = Inr X0 \<and>
           (\<forall>k \<in> {1..9}. gm_fit L k (seed self) X0 = Inr (fit k)) \<and>
           best \<in> {1..9} \<and>
           (\<forall>k \<in> {1..9}. gm_bic L (fit best) X0 \<le> gm_bic L (fit k) X0) \<and>
           (\<forall>k \<in> {1..9}. k < best \<longrightarrow> gm_bic L (fit best) X0 < gm_bic L (fit k) X0) \<and>
           gm_sample L (fit best) (length (np_where_eq y 0)) s = Inr (Xn, s1) \<and>
           take (shape0 Xn) (rows X') = rows Xn"
proof -
  from generate_realistic_synthetic_stages [OF assms(2)]
  obtain X0 gm X1 Xn s1 and Xa :: ndarray2 where
    mask: "np_mask_rows X y 0 = Inr X0" and
    normal: "synthetic_normal L (seed self) X0 (length (np_where_eq y 0)) mode s =
               Inr ((gm, X1, Xn), s1)" and
    X': "X' = \<lparr>ncols = ncols Xn, rows = rows Xn @ rows Xa\<rparr>"
    by blast
  from synthetic_normal_selection [OF assms(1) normal]
  obtain fit best where
    "\<forall>k \<in> {1..9}. gm_fit L k (seed self) X0 = Inr (fit k)"
    "best \<in> {1..9}"
    "\<forall>k \<in> {1..9}. gm_bic L (fit best) X0 \<le> gm_bic L (fit k) X0"
    "\<forall>k \<in> {1..9}. k < best \<longrightarrow> gm_bic L (fit best) X0 < gm_bic L (fit k) X0"
    "gm_sample L (fit best) (length (np_where_eq y 0)) s = Inr (Xn, s1)"
    by blast
  moreover have "take (shape0 Xn) (rows X') = rows Xn"
    by (simp add: X' shape0_def)
  ultimately show ?thesis
    using mask by blast
qed

theorem bic_model_selection_witness:
  "''local'' \<in> set [''local'', ''cluster'', ''global''] \<and>
   generate_realistic_synthetic stub_library toy_generator synth_X synth_y ''local'' 5 (1 / 10) 0 =
     Inr ((\<lparr>ncols = 1, rows = [[1], [2], [3], [1], [2], [3], [1], [2], [3], [1], [2]]\<rparr>,
           [0, 0, 0, 0, 0, 0, 0, 0, 0, 1, 1]), 2) \<and>
   bic_search stub_library 42 nine_X n_components_list = Inr [1, 2, 0, 1, 2, 0, 1, 2, 0] \<and>
   np_argmin [1, 2, 0, 1, 2, 0, 1, 2, 0] = Inr 2 \<and>
   (\<exists>X0 fit best Xn s1.
      np_mask_rows synth_X synth_y 0 = Inr X0 \<and>
      (\<forall>k \<in> {1..9}. gm_fit stub_library k (seed toy_generator) X0 = Inr (fit k)) \<and>
      best \<in> {1..9} \<and>
      (\<forall>k \<in> {1..9}. gm_bic stub_library (fit best) X0 \<le> gm_bic stub_library (fit k) X0) \<and>
      (\<forall>k \<in> {1..9}. k < best \<longrightarrow>
         gm_bic stub_library (fit best) X0 < gm_bic stub_library (fit k) X0) \<and>
      gm_sample stub_library (fit best) (length (np_where_eq synth_y 0)) 0 = Inr (Xn, s1) \<and>
      take (shape0 Xn) [[1], [2], [3], [1], [2], [3], [1], [2], [3], [1], [2]] = rows Xn)"
proof -
  have mode: "''local'' \<in> set [''local'', ''cluster'', ''global'']"
    by simp
  have run:
    "generate_realistic_synthetic stub_library toy_generator synth_X synth_y ''local'' 5 (1 / 10) 0 =
       Inr ((\<lparr>ncols = 1, rows = [[1], [2], [3], [1], [2], [3], [1], [2], [3], [1], [2]]\<rparr>,
             [0, 0, 0, 0, 0, 0, 0, 0, 0, 1, 1]), 2)"
    by code_simp
  have search:
    "bic_search stub_library 42 nine_X n_components_list = Inr [1, 2, 0, 1, 2, 0, 1, 2, 0]"
    by code_simp
  have argmin: "np_argmin [1, 2, 0, 1, 2, 0, 1, 2, 0] = Inr 2"
    by code_simp
  from bic_model_selection [OF mode run]
  show ?thesis
    using mode run search argmin by simp
qed

text \<open>
  C3. With an integer \<open>la\<close> greater than the number of positions labeled 1 in the
  training split, the label partition raises the AssertionError of line 371 (the spec's
  InsufficientAnomaliesError), and so does \<^verbatim>\<open>generator\<close> once the stages before the
  partition have returned. With \<open>0 \<le> la\<close> not greater than that number, the draw
  returns exactly \<open>la\<close> distinct positions labeled 1, and these are the positions
  labeled 1 in the training labels that are returned.
\<close>

theorem integer_la_selection:
  assumes "choice_contract L" and "choice_succeeds L"
  shows "(int (length (np_where_eq ytr 1)) < n \<longrightarrow>
            label_partition L (LaInt n) at_least_one_labeled noise_type ytr s =
              Inl AssertionError \<and>
            (prepare_data L self (LaInt n) mode alpha percentage noise_type noise_ratio s0 =
               Inr ((X, y), s1) \<and>
             split_and_scale L self noise_type duplicate_times noise_ratio X y s1 =
               Inr ((Xtr, Xte, ytr, yte), s) \<longrightarrow>
             generator L self (LaInt n) at_least_one_labeled mode alpha percentage noise_type
               duplicate_times contam_ratio noise_ratio s0 = Inl AssertionError)) \<and>
         (0 \<le> n \<and> n \<le> int (length (np_where_eq ytr 1)) \<longrightarrow>
            (\<exists>idx s2.
               select_labeled_anomalies L (LaInt n) at_least_one_labeled (np_where_eq ytr 1) s =
                 Inr (idx, s2) \<and>
               int (length idx) = n \<and> distinct idx \<and> set idx \<subseteq> set (np_where_eq ytr 1) \<and>
               (noise_type \<noteq> Some ''anomaly_contamination'' \<longrightarrow>
                  (\<exists>y2. label_partition L (LaInt n) at_least_one_labeled noise_type ytr s =
                          Inr (y2, s2) \<and>
                        set (np_where_eq y2 1) = set idx))))"
proof (intro conjI impI)
  assume lt: "int (length (np_where_eq ytr 1)) < n"
  then show fail:
    "label_partition L (LaInt n) at_least_one_labeled noise_type ytr s = Inl AssertionError"
    by (simp add: label_partition_def select_labeled_anomalies_def Let_def)
  assume "prepare_data L self (LaInt n) mode alpha percentage noise_type noise_ratio s0 =
            Inr ((X, y), s1) \<and>
          split_and_scale L self noise_type duplicate_times noise_ratio X y s1 =
            Inr ((Xtr, Xte, ytr, yte), s)"
  with fail show
    "generator L self (LaInt n) at_least_one_labeled mode alpha percentage noise_type
       duplicate_times contam_ratio noise_ratio s0 = Inl AssertionError"
    by (simp add: generator_def)
next
  let ?pop = "np_where_eq ytr 1"
  assume n: "0 \<le> n \<and> n \<le> int (length ?pop)"
  then have sel: "select_labeled_anomalies L (LaInt n) at_least_one_labeled ?pop s =
                    random_choice L ?pop n False s"
    by (simp add: select_labeled_anomalies_def)
  from n choice_returns [OF assms(2), of n ?pop s] obtain idx s2 where
    ch: "random_choice L ?pop n False s = Inr (idx, s2)"
    by blast
  have len: "int (length idx) = n"
    using choice_without_replacement(2) [OF assms(1) ch] n by simp
  have sub: "set idx \<subseteq> set ?pop"
    by (rule choice_without_replacement(3) [OF assms(1) ch])
  have dist: "distinct idx"
    by (rule choice_without_replacement(4) [OF assms(1) ch]) (rule distinct_np_where_eq)
  have part: "\<exists>y2. label_partition L (LaInt n) at_least_one_labeled noise_type ytr s =
                     Inr (y2, s2) \<and> set (np_where_eq y2 1) = set idx"
    if "noise_type \<noteq> Some ''anomaly_contamination''"
    using label_partition_labels [OF _ sub that, of L "LaInt n" at_least_one_labeled s s2]
      ones_of_partition [OF sub] sel ch by simp
  from sel ch have "select_labeled_anomalies L (LaInt n) at_least_one_labeled ?pop s =
                      Inr (idx, s2)"
    by simp
  with len dist sub part show
    "\<exists>idx s2.
       select_labeled_anomalies L (LaInt n) at_least_one_labeled ?pop s = Inr (idx, s2) \<and>
       int (length idx) = n \<and> distinct idx \<and> set idx \<subseteq> set ?pop \<and>
       (noise_type \<noteq> Some ''anomaly_contamination'' \<longrightarrow>
          (\<exists>y2. label_partition L (LaInt n) at_least_one_labeled noise_type ytr s =
                  Inr (y2, s2) \<and>
                set (np_where_eq y2 1) = set idx))"
    by blast
qed

theorem integer_la_selection_witness:
  "choice_contract stub_library \<and> choice_succeeds stub_library \<and>
   int (length (np_where_eq [0, 1, 0, 1] 1)) < 5 \<and>
   prepare_data stub_library toy_generator (LaInt 5) None 5 (1 / 10) None (1 / 2) 0 =
     Inr ((toy_X, toy_y), 0) \<and>
   split_and_scale stub_library toy_generator None 2 (1 / 2) toy_X toy_y 0 =
     Inr ((\<lparr>ncols = 1, rows = [[1], [2], [3], [4]]\<rparr>, \<lparr>ncols = 1, rows = [[5], [6]]\<rparr>,
           [0, 1, 0, 1], [0, 1]), 1) \<and>
   label_partition stub_library (LaInt 5) False None [0, 1, 0, 1] 1 = Inl AssertionError \<and>
   generator stub_library toy_generator (LaInt 5) False None 5 (1 / 10) None 2 1 (1 / 2) 0 =
     Inl AssertionError \<and>
   (0::int) \<le> 2 \<and> 2 \<le> int (length (np_where_eq [0, 1, 0, 1] 1)) \<and>
   select_labeled_anomalies stub_library (LaInt 2) False (np_where_eq [0, 1, 0, 1] 1) 1 =
     Inr ([3, 1], 2) \<and>
   (\<exists>idx s2.
      select_labeled_anomalies stub_library (LaInt 2) False (np_where_eq [0, 1, 0, 1] 1) 1 =
        Inr (idx, s2) \<and>
      int (length idx) = 2 \<and> distinct idx \<and> set idx \<subseteq> set (np_where_eq [0, 1, 0, 1] 1))"
proof -
  have pop: "np_where_eq [0, 1, 0, 1] 1 = [1, 3]"
    by code_simp
  have few: "int (length (np_where_eq [0, 1, 0, 1] 1)) < 5"
    by (simp add: pop)
  have enough: "(0::int) \<le> 2 \<and> 2 \<le> int (length (np_where_eq [0, 1, 0, 1] 1))"
    by (simp add: pop)
  have prep:
    "prepare_data stub_library toy_generator (LaInt 5) None 5 (1 / 10) None (1 / 2) 0 =
       Inr ((toy_X, toy_y), 0)"
    by code_simp
  have split:
    "split_and_scale stub_library toy_generator None 2 (1 / 2) toy_X toy_y 0 =
       Inr ((\<lparr>ncols = 1, rows = [[1], [2], [3], [4]]\<rparr>, \<lparr>ncols = 1, rows = [[5], [6]]\<rparr>,
             [0, 1, 0, 1], [0, 1]), 1)"
    by code_simp
  have sel:
    "select_labeled_anomalies stub_library (LaInt 2) False (np_where_eq [0, 1, 0, 1] 1) 1 =
       Inr ([3, 1], 2)"
    by code_simp
  note too_many = integer_la_selection [OF stub_choice_contract stub_choice_succeeds,
      of "[0, 1, 0, 1]" 5 False None 1 toy_generator None 5 "1 / 10" "1 / 2" 0 toy_X toy_y 0 2
        "\<lparr>ncols = 1, rows = [[1], [2], [3], [4]]\<rparr>" "\<lparr>ncols = 1, rows = [[5], [6]]\<rparr>"
        "[0, 1]" 1, THEN conjunct1]
  note within = integer_la_selection [OF stub_choice_contract stub_choice_succeeds,
      of "[0, 1, 0, 1]" 2 False None 1, THEN conjunct2]
  from too_many few prep split have
    "label_partition stub_library (LaInt 5) False None [0, 1, 0, 1] 1 = Inl AssertionError"
    "generator stub_library toy_generator (LaInt 5) False None 5 (1 / 10) None 2 1 (1 / 2) 0 =
       Inl AssertionError"
    by blast+
  moreover from within enough have
    "\<exists>idx s2.
      select_labeled_anomalies stub_library (LaInt 2) False (np_where_eq [0, 1, 0, 1] 1) 1 =
        Inr (idx, s2) \<and>
      int (length idx) = 2 \<and> distinct idx \<and> set idx \<subseteq> set (np_where_eq [0, 1, 0, 1] 1)"
    by blast
  ultimately show ?thesis
    using stub_choice_contract stub_choice_succeeds few enough prep split sel by blast
qed

text \<open>
  C7. With \<^verbatim>\<open>noise_type = 'label_contamination'\<close>, a call of \<^verbatim>\<open>generator\<close> that
  returns has prepared the data exactly as a call without noise does, has split it, and
  has applied \<^verbatim>\<open>add_label_contamination\<close> to the training part of that split only; the
  \<^verbatim>\<open>y_test\<close> it returns is the test label vector that the splitter returned.
\<close>

theorem label_contamination_keeps_test_labels:
  assumes "generator L self la at_least_one_labeled mode alpha percentage
             (Some ''label_contamination'') duplicate_times contam_ratio noise_ratio s =
           Inr (res, s')"
  shows "\<exists>X y s1 Xtr Xte ytr yte s2 ytr' s3.
           prepare_data L self la mode alpha percentage None noise_ratio s = Inr ((X, y), s1) \<and>
           train_test_split L X y (test_size self) s1 = Inr ((Xtr, Xte, ytr, yte), s2) \<and>
           add_label_contamination L Xtr ytr noise_ratio s2 = Inr ((Xtr, ytr'), s3) \<and>
           y_test res = yte"
proof -
  from assms obtain X y s1 Xtr' Xte' ytr' yte s3 where
    prep: "prepare_data L self la mode alpha percentage (Some ''label_contamination'')
             noise_ratio s = Inr ((X, y), s1)" and
    split: "split_and_scale L self (Some ''label_contamination'') duplicate_times noise_ratio
              X y s1 = Inr ((Xtr', Xte', ytr', yte), s3)" and
    res: "y_test res = yte"
    unfolding generator_def by (auto simp: and_then_eq_Inr)
  from split obtain Xtr Xte ytr s2 Xtr0 where
    "train_test_split L X y (test_size self) s1 = Inr ((Xtr, Xte, ytr, yte), s2)"
    "add_label_contamination L Xtr ytr noise_ratio s2 = Inr ((Xtr0, ytr'), s3)"
    unfolding split_and_scale_def by (auto simp: and_then_eq_Inr)
  moreover from this(2) have "Xtr0 = Xtr"
    by (auto simp: add_label_contamination_def and_then_eq_Inr split: if_splits)
  ultimately show ?thesis
    using prep res unfolding prepare_data_label_contamination by blast
qed

theorem label_contamination_keeps_test_labels_witness:
  "generator stub_library toy_generator (LaInt 1) False None 5 (1 / 10)
     (Some ''label_contamination'') 2 1 (1 / 2) 0 =
     Inr (\<lparr>X_train = \<lparr>ncols = 1, rows = [[1], [2], [3], [4]]\<rparr>, y_train = [0, 0, 1, 0],
            X_test = \<lparr>ncols = 1, rows = [[5], [6]]\<rparr>, y_test = [0, 1]\<rparr>, 3) \<and>
   train_test_split stub_library toy_X toy_y (test_size toy_generator) 0 =
     Inr ((\<lparr>ncols = 1, rows = [[1], [2], [3], [4]]\<rparr>, \<lparr>ncols = 1, rows = [[5], [6]]\<rparr>,
           [0, 1, 0, 1], [0, 1]), 1) \<and>
   add_label_contamination stub_library \<lparr>ncols = 1, rows = [[1], [2], [3], [4]]\<rparr>
     [0, 1, 0, 1] (1 / 2) 1 =
     Inr ((\<lparr>ncols = 1, rows = [[1], [2], [3], [4]]\<rparr>, [0, 1, 1, 0]), 2) \<and>
   (\<exists>X y s1 Xtr Xte ytr yte s2 ytr' s3.
      prepare_data stub_library toy_generator (LaInt 1) None 5 (1 / 10) None (1 / 2) 0 =
        Inr ((X, y), s1) \<and>
      train_test_split stub_library X y (test_size toy_generator) s1 =
        Inr ((Xtr, Xte, ytr, yte), s2) \<and>
      add_label_contamination stub_library Xtr ytr (1 / 2) s2 = Inr ((Xtr, ytr'), s3) \<and>
      [0, 1] = yte)"
proof -
  have run:
    "generator stub_library toy_generator (LaInt 1) False None 5 (1 / 10)
       (Some ''label_contamination'') 2 1 (1 / 2) 0 =
       Inr (\<lparr>X_train = \<lparr>ncols = 1, rows = [[1], [2], [3], [4]]\<rparr>, y_train = [0, 0, 1, 0],
              X_test = \<lparr>ncols = 1, rows = [[5], [6]]\<rparr>, y_test = [0, 1]\<rparr>, 3)"
    by code_simp
  have split:
    "train_test_split stub_library toy_X toy_y (test_size toy_generator) 0 =
       Inr ((\<lparr>ncols = 1, rows = [[1], [2], [3], [4]]\<rparr>, \<lparr>ncols = 1, rows = [[5], [6]]\<rparr>,
             [0, 1, 0, 1], [0, 1]), 1)"
    by code_simp
  have flip:
    "add_label_contamination stub_library \<lparr>ncols = 1, rows = [[1], [2], [3], [4]]\<rparr>
       [0, 1, 0, 1] (1 / 2) 1 =
       Inr ((\<lparr>ncols = 1, rows = [[1], [2], [3], [4]]\<rparr>, [0, 1, 1, 0]), 2)"
    by code_simp
  from label_contamination_keeps_test_labels [OF run]
  show ?thesis
    using run split flip by simp
qed

text \<open>
  C9. Each transformation step, applied to a matrix with a row-aligned binary label
  vector, returns a matrix with a row-aligned binary label vector whenever it returns:
  outlier synthesis, duplicated-anomaly resampling, irrelevant-feature augmentation, label
  contamination, and the label partition (which rewrites the labels of the training
  matrix and leaves the matrix as it is).
\<close>

theorem steps_preserve_invariant:
  assumes "row_aligned X y" and "binary y"
  shows "(generate_realistic_synthetic L self X y mode alpha percentage s = Inr ((X1, y1), s1) \<longrightarrow>
            row_aligned X1 y1 \<and> binary y1) \<and>
         (add_duplicated_anomalies L X y duplicate_times s = Inr ((X2, y2), s2) \<longrightarrow>
            row_aligned X2 y2 \<and> binary y2) \<and>
         (add_irrelevant_features L X y noise_ratio s = Inr ((X3, y3), s3) \<longrightarrow>
            row_aligned X3 y3 \<and> binary y3) \<and>
         (add_label_contamination L X y noise_ratio s = Inr ((X4, y4), s4) \<longrightarrow>
            row_aligned X4 y4 \<and> binary y4) \<and>
         (label_partition L la at_least_one_labeled noise_type y s = Inr (y5, s5) \<longrightarrow>
            row_aligned X y5 \<and> binary y5)"
proof (intro conjI impI)
  assume "generate_realistic_synthetic L self X y mode alpha percentage s = Inr ((X1, y1), s1)"
  from synthesis_invariant [OF this] show "row_aligned X1 y1" "binary y1"
    by simp_all
next
  assume "add_duplicated_anomalies L X y duplicate_times s = Inr ((X2, y2), s2)"
  from duplicated_invariant [OF this assms] show "row_aligned X2 y2" "binary y2"
    by simp_all
next
  assume "add_irrelevant_features L X y noise_ratio s = Inr ((X3, y3), s3)"
  from irrelevant_features_rows [OF this] assms show "row_aligned X3 y3" "binary y3"
    by (simp_all add: row_aligned_def)
next
  assume "add_label_contamination L X y noise_ratio s = Inr ((X4, y4), s4)"
  from contamination_invariant [OF this assms] show "row_aligned X4 y4" "binary y4"
    by simp_all
next
  assume "label_partition L la at_least_one_labeled noise_type y s = Inr (y5, s5)"
  from partition_invariant [OF this assms(2)] assms(1) show "row_aligned X y5" "binary y5"
    by (simp_all add: row_aligned_def)
qed

theorem steps_preserve_invariant_witness:
  "row_aligned synth_X synth_y \<and> binary synth_y \<and>
   generate_realistic_synthetic stub_library toy_generator synth_X synth_y ''local'' 5 (1 / 10) 0 =
     Inr ((\<lparr>ncols = 1, rows = [[1], [2], [3], [1], [2], [3], [1], [2], [3], [1], [2]]\<rparr>,
           [0, 0, 0, 0, 0, 0, 0, 0, 0, 1, 1]), 2) \<and>
   row_aligned \<lparr>ncols = 1, rows = [[1], [2], [3], [1], [2], [3], [1], [2], [3], [1], [2]]\<rparr>
     [0, 0, 0, 0, 0, 0, 0, 0, 0, 1, 1] \<and>
   binary [0, 0, 0, 0, 0, 0, 0, 0, 0, 1, 1] \<and>
   add_duplicated_anomalies stub_library synth_X synth_y 2 0 =
     Inr ((\<lparr>ncols = 1,
             rows = [[11], [10], [11], [10], [9], [8], [7], [6], [5], [4], [3], [2], [1]]\<rparr>,
           [1, 1, 1, 1, 0, 0, 0, 0, 0, 0, 0, 0, 0]), 2) \<and>
   row_aligned
     \<lparr>ncols = 1, rows = [[11], [10], [11], [10], [9], [8], [7], [6], [5], [4], [3], [2], [1]]\<rparr>
     [1, 1, 1, 1, 0, 0, 0, 0, 0, 0, 0, 0, 0] \<and>
   binary [1, 1, 1, 1, 0, 0, 0, 0, 0, 0, 0, 0, 0] \<and>
   add_irrelevant_features stub_library synth_X synth_y (1 / 2) 0 =
     Inr ((\<lparr>ncols = 2,
             rows = [[6, 1], [6, 2], [6, 3], [6, 4], [6, 5], [6, 6], [6, 7], [6, 8], [6, 9],
                     [6, 10], [6, 11]]\<rparr>,
           [0, 0, 0, 0, 0, 0, 0, 0, 0, 1, 1]), 3) \<and>
   row_aligned
     \<lparr>ncols = 2,
        rows = [[6, 1], [6, 2], [6, 3], [6, 4], [6, 5], [6, 6], [6, 7], [6, 8], [6, 9],
                [6, 10], [6, 11]]\<rparr>
     [0, 0, 0, 0, 0, 0, 0, 0, 0, 1, 1] \<and>
   add_label_contamination stub_library synth_X synth_y (1 / 2) 0 =
     Inr ((synth_X, [0, 0, 0, 0, 0, 0, 1, 1, 1, 0, 0]), 1) \<and>
   row_aligned synth_X [0, 0, 0, 0, 0, 0, 1, 1, 1, 0, 0] \<and>
   binary [0, 0, 0, 0, 0, 0, 1, 1, 1, 0, 0] \<and>
   label_partition stub_library (LaInt 1) False None synth_y 0 =
     Inr ([0, 0, 0, 0, 0, 0, 0, 0, 0, 0, 1], 1) \<and>
   row_aligned synth_X [0, 0, 0, 0, 0, 0, 0, 0, 0, 0, 1] \<and>
   binary [0, 0, 0, 0, 0, 0, 0, 0, 0, 0, 1]"
proof -
  have al: "row_aligned synth_X synth_y"
    by code_simp
  have bin: "binary synth_y"
    by code_simp
  have r1:
    "generate_realistic_synthetic stub_library toy_generator synth_X synth_y ''local'' 5 (1 / 10) 0 =
       Inr ((\<lparr>ncols = 1, rows = [[1], [2], [3], [1], [2], [3], [1], [2], [3], [1], [2]]\<rparr>,
             [0, 0, 0, 0, 0, 0, 0, 0, 0, 1, 1]), 2)"
    by code_simp
  have r2:
    "add_duplicated_anomalies stub_library synth_X synth_y 2 0 =
       Inr ((\<lparr>ncols = 1,
               rows = [[11], [10], [11], [10], [9], [8], [7], [6], [5], [4], [3], [2], [1]]\<rparr>,
             [1, 1, 1, 1, 0, 0, 0, 0, 0, 0, 0, 0, 0]), 2)"
    by code_simp
  have r3:
    "add_irrelevant_features stub_library synth_X synth_y (1 / 2) 0 =
       Inr ((\<lparr>ncols = 2,
               rows = [[6, 1], [6, 2], [6, 3], [6, 4], [6, 5], [6, 6], [6, 7], [6, 8], [6, 9],
                       [6, 10], [6, 11]]\<rparr>,
             [0, 0, 0, 0, 0, 0, 0, 0, 0, 1, 1]), 3)"
    by code_simp
  have r4:
    "add_label_contamination stub_library synth_X synth_y (1 / 2) 0 =
       Inr ((synth_X, [0, 0, 0, 0, 0, 0, 1, 1, 1, 0, 0]), 1)"
    by code_simp
  have r5:
    "label_partition stub_library (LaInt 1) False None synth_y 0 =
       Inr ([0, 0, 0, 0, 0, 0, 0, 0, 0, 0, 1], 1)"
    by code_simp
  note inv = steps_preserve_invariant [OF al bin,
      where L = stub_library and self = toy_generator and mode = "''local''" and alpha = 5
        and percentage = "1 / 10" and s = 0 and duplicate_times = 2 and noise_ratio = "1 / 2"
        and la = "LaInt 1" and at_least_one_labeled = False and noise_type = None]
  from inv r1 r2 r3 r4 r5 al bin show ?thesis
    by blast
qed




text \<open>
  C10, as amended. Whenever the noise dimension that line 171 computes, in double
  precision, is not positive, \<^verbatim>\<open>add_irrelevant_features\<close> returns \<open>(X, y)\<close> unchanged
  and draws nothing: the random state is returned as it was received.
\<close>

theorem add_irrelevant_features_zero_noise_dim:
  assumes "noise_dim_of r (shape1 X) = Inr noise_dim" and "noise_dim \<le> 0"
  shows "add_irrelevant_features L X y r s = Inr ((X, y), s)"
  using assms by (simp add: add_irrelevant_features_def)

theorem add_irrelevant_features_zero_noise_dim_witness:
  "noise_dim_of (1 / 8) (shape1 toy_X) = Inr 0 \<and> (0 :: int) \<le> 0 \<and>
   add_irrelevant_features stub_library toy_X toy_y (1 / 8) 0 = Inr ((toy_X, toy_y), 0)"
proof -
  have nd: "noise_dim_of (1 / 8) (shape1 toy_X) = Inr 0"
    by code_simp
  have "add_irrelevant_features stub_library toy_X toy_y (1 / 8) 0 = Inr ((toy_X, toy_y), 0)"
    by (rule add_irrelevant_features_zero_noise_dim [OF nd]) simp
  with nd show ?thesis by simp
qed

text \<open>
  C10 as stated fails. For the double \<open>r = 0.24999999999999997\<close> and three columns,
  \<open>\<lfloor>r / (1 - r) * 3\<rfloor> = 0\<close> in the reals, but in double precision \<open>1 - r\<close> is
  \<open>0.75\<close>, the quotient is the double next to \<open>1/3\<close>, its product with 3 rounds to
  \<open>1.0\<close>, and one noise column is appended and the columns are permuted.
\<close>

theorem add_irrelevant_features_zero_noise_dim_counterexample:
  "is_double below_quarter \<and> 0 < below_quarter \<and>
   \<lfloor>below_quarter / (1 - below_quarter) * real (shape1 flat_X)\<rfloor> = 0 \<and>
   noise_dim_of below_quarter (shape1 flat_X) = Inr 1 \<and>
   add_irrelevant_features stub_library flat_X [0] below_quarter 0 =
     Inr ((flat_noisy_X, [0]), 3) \<and>
   flat_noisy_X \<noteq> flat_X"
proof -
  have "is_double below_quarter"
    by code_simp
  moreover have "0 < below_quarter"
    by (simp add: below_quarter_def)
  moreover have "\<lfloor>below_quarter / (1 - below_quarter) * real (shape1 flat_X)\<rfloor> = 0"
    by (simp add: below_quarter_def flat_X_def shape1_def)
  moreover have "noise_dim_of below_quarter (shape1 flat_X) = Inr 1"
    by code_simp
  moreover have
    "add_irrelevant_features stub_library flat_X [0] below_quarter 0 =
       Inr ((flat_noisy_X, [0]), 3)"
    by code_simp
  moreover have "flat_noisy_X \<noteq> flat_X"
    by (simp add: flat_noisy_X_def flat_X_def)
  ultimately show ?thesis by simp
qed

text \<open>
  C2, as amended. With a float \<open>la = f\<close>, \<open>0 \<le> f \<le> 1\<close>, the label partition draws its
  labeled anomalies with \<^verbatim>\<open>np.random.choice(idx_anomaly, k, replace=False)\<close>, where
  \<open>idx_anomaly\<close> are the positions labeled 1 in the training split and \<open>k\<close> is the
  ceiling (when \<^verbatim>\<open>at_least_one_labeled\<close> holds) or the floor (otherwise) of the
  double-precision product \<^verbatim>\<open>la * len(idx_anomaly)\<close>. The draw returns, the positions
  drawn are exactly \<open>k\<close> distinct elements of \<open>idx_anomaly\<close>, and they are exactly the
  positions labeled 1 in the training labels that are returned. Under the ceiling variant
  at least one position is drawn whenever the double \<open>f\<close> is positive and an anomaly
  exists, also when \<open>f * |idx_anomaly| < 1\<close>.
\<close>

theorem float_la_selection:
  assumes "choice_contract L" and "choice_succeeds L" and "0 \<le> f" and "f \<le> 1"
      and "length (np_where_eq ytr 1) < 2 ^ 53"
  shows "\<exists>idx s1.
           select_labeled_anomalies L (LaFloat f) at_least_one_labeled (np_where_eq ytr 1) s =
             Inr (idx, s1) \<and>
           int (length idx) =
             (if at_least_one_labeled
              then \<lceil>float_times_int f (length (np_where_eq ytr 1))\<rceil>
              else \<lfloor>float_times_int f (length (np_where_eq ytr 1))\<rfloor>) \<and>
           distinct idx \<and> set idx \<subseteq> set (np_where_eq ytr 1) \<and>
           (at_least_one_labeled \<and> is_double f \<and> 0 < f \<and> np_where_eq ytr 1 \<noteq> [] \<longrightarrow>
              1 \<le> length idx) \<and>
           (noise_type \<noteq> Some ''anomaly_contamination'' \<longrightarrow>
              (\<exists>y2. label_partition L (LaFloat f) at_least_one_labeled noise_type ytr s =
                      Inr (y2, s1) \<and>
                    set (np_where_eq y2 1) = set idx))"
proof -
  let ?pop = "np_where_eq ytr 1"
  let ?v = "float_times_int f (length ?pop)"
  define k where "k = (if at_least_one_labeled then \<lceil>?v\<rceil> else \<lfloor>?v\<rfloor>)"
  note v = float_times_int_bounds [OF assms(3,4,5)]
  have k0: "0 \<le> k"
    using v(1) unfolding k_def by (simp add: order_trans [OF _ le_of_int_ceiling])
  have "\<lceil>?v\<rceil> \<le> int (length ?pop)"
    using v(2) by (simp add: ceiling_le_iff)
  moreover have "\<lfloor>?v\<rfloor> \<le> int (length ?pop)"
    using v(2) by (simp add: floor_le_iff)
  ultimately have kn: "k \<le> int (length ?pop)"
    unfolding k_def by simp
  have sel: "select_labeled_anomalies L (LaFloat f) at_least_one_labeled ?pop s =
               random_choice L ?pop k False s"
    using v(1,3)
    by (simp add: select_labeled_anomalies_def k_def py_ceil_def py_int_of_float_def
        py_int_nonneg)
  from choice_returns [OF assms(2) k0 kn] obtain idx s1 where
    ch: "random_choice L ?pop k False s = Inr (idx, s1)"
    by blast
  have len: "int (length idx) = k"
    using choice_without_replacement(2) [OF assms(1) ch] k0 by simp
  have sub: "set idx \<subseteq> set ?pop"
    by (rule choice_without_replacement(3) [OF assms(1) ch])
  have dist: "distinct idx"
    by (rule choice_without_replacement(4) [OF assms(1) ch]) (rule distinct_np_where_eq)
  have one: "1 \<le> length idx"
    if "at_least_one_labeled" "is_double f" "0 < f" "?pop \<noteq> []"
  proof -
    from that(4) have "0 < length ?pop" by simp
    from float_times_int_pos [OF that(2,3) this assms(5)] have "1 \<le> \<lceil>?v\<rceil>"
      by simp
    moreover from len that(1) have "int (length idx) = \<lceil>?v\<rceil>"
      by (simp add: k_def)
    ultimately show ?thesis by linarith
  qed
  have part: "\<exists>y2. label_partition L (LaFloat f) at_least_one_labeled noise_type ytr s =
                     Inr (y2, s1) \<and> set (np_where_eq y2 1) = set idx"
    if "noise_type \<noteq> Some ''anomaly_contamination''"
    using label_partition_labels [OF _ sub that, of L "LaFloat f" at_least_one_labeled s s1]
      ones_of_partition [OF sub] sel ch by simp
  from sel ch have "select_labeled_anomalies L (LaFloat f) at_least_one_labeled ?pop s =
                      Inr (idx, s1)"
    by simp
  with len dist sub one part show ?thesis
    unfolding k_def by blast
qed

theorem float_la_selection_witness:
  "choice_contract stub_library \<and> choice_succeeds stub_library \<and>
   0 \<le> double_tenth \<and> double_tenth \<le> 1 \<and> is_double double_tenth \<and> 0 < double_tenth \<and>
   length (np_where_eq [0, 1, 0, 1] 1) < 2 ^ 53 \<and>
   double_tenth * real (length (np_where_eq [0, 1, 0, 1] 1)) < 1 \<and>
   select_labeled_anomalies stub_library (LaFloat double_tenth) True
     (np_where_eq [0, 1, 0, 1] 1) 0 = Inr ([3], 1) \<and>
   label_partition stub_library (LaFloat double_tenth) True None [0, 1, 0, 1] 0 =
     Inr ([0, 0, 0, 1], 1) \<and>
   (\<exists>idx s1.
      select_labeled_anomalies stub_library (LaFloat double_tenth) True
        (np_where_eq [0, 1, 0, 1] 1) 0 = Inr (idx, s1) \<and>
      int (length idx) = \<lceil>float_times_int double_tenth (length (np_where_eq [0, 1, 0, 1] 1))\<rceil> \<and>
      distinct idx \<and> set idx \<subseteq> set (np_where_eq [0, 1, 0, 1] 1) \<and> 1 \<le> length idx)"
proof -
  have pop: "np_where_eq [0, 1, 0, 1] 1 = [1, 3]"
    by code_simp
  have f: "0 \<le> double_tenth" "double_tenth \<le> 1" "0 < double_tenth"
    by (simp_all add: double_tenth_def)
  have dbl: "is_double double_tenth"
    by code_simp
  have n: "length (np_where_eq [0, 1, 0, 1] 1) < 2 ^ 53"
    by (simp add: pop)
  have small: "double_tenth * real (length (np_where_eq [0, 1, 0, 1] 1)) < 1"
    by (simp add: pop double_tenth_def)
  have sel:
    "select_labeled_anomalies stub_library (LaFloat double_tenth) True
       (np_where_eq [0, 1, 0, 1] 1) 0 = Inr ([3], 1)"
    by code_simp
  have part:
    "label_partition stub_library (LaFloat double_tenth) True None [0, 1, 0, 1] 0 =
       Inr ([0, 0, 0, 1], 1)"
    by code_simp
  have ne: "np_where_eq [0, 1, 0, 1] 1 \<noteq> []"
    by (simp add: pop)
  from float_la_selection [OF stub_choice_contract stub_choice_succeeds f(1,2) n,
      of True 0 None]
  have "\<exists>idx s1.
      select_labeled_anomalies stub_library (LaFloat double_tenth) True
        (np_where_eq [0, 1, 0, 1] 1) 0 = Inr (idx, s1) \<and>
      int (length idx) = \<lceil>float_times_int double_tenth (length (np_where_eq [0, 1, 0, 1] 1))\<rceil> \<and>
      distinct idx \<and> set idx \<subseteq> set (np_where_eq [0, 1, 0, 1] 1) \<and> 1 \<le> length idx"
    using f(3) dbl ne by auto
  with stub_choice_contract stub_choice_succeeds f dbl n small sel part show ?thesis
    by blast
qed

text \<open>
  C2 as stated fails. For the double \<open>f = 0.1\<close> and ten anomalies the exact product
  \<open>f * 10\<close> is greater than 1 and its ceiling is 2, but the double-precision product is
  \<open>1.0\<close> and one position is drawn.
\<close>

theorem float_la_selection_counterexample:
  "is_double double_tenth \<and> length (np_where_eq ten_anomalies 1) = 10 \<and>
   \<lceil>double_tenth * real (length (np_where_eq ten_anomalies 1))\<rceil> = 2 \<and>
   float_times_int double_tenth (length (np_where_eq ten_anomalies 1)) = 1 \<and>
   select_labeled_anomalies stub_library (LaFloat double_tenth) True
     (np_where_eq ten_anomalies 1) 0 = Inr ([9], 1)"
proof -
  have "is_double double_tenth"
    by code_simp
  moreover have n: "length (np_where_eq ten_anomalies 1) = 10"
    by code_simp
  moreover have "\<lceil>double_tenth * real (length (np_where_eq ten_anomalies 1))\<rceil> = 2"
    unfolding n by (simp add: double_tenth_def)
  moreover have "float_times_int double_tenth (length (np_where_eq ten_anomalies 1)) = 1"
    by code_simp
  moreover have
    "select_labeled_anomalies stub_library (LaFloat double_tenth) True
       (np_where_eq ten_anomalies 1) 0 = Inr ([9], 1)"
    by code_simp
  ultimately show ?thesis by simp
qed

text \<open>
  C8, as amended. \<^verbatim>\<open>add_irrelevant_features\<close> with \<open>noise_ratio = 0\<close> returns
  \<open>(X, y)\<close> and the random state unchanged. With \<open>0 < noise_ratio = r < 1\<close>, a call
  that returns keeps the labels and the row count; its column count is \<open>d + noise_dim\<close>,
  where \<open>noise_dim \<ge> 0\<close> is what line 171 computes in double precision; and its columns
  are a permutation of the \<open>d\<close> columns of \<open>X\<close> followed by the new columns: a column
  taken from \<open>X\<close> is that column, and every value of a new column lies between the
  minimum and the maximum of one column of \<open>X\<close>, the one it was sourced from.
\<close>

theorem add_irrelevant_features_columns:
  assumes "choice_contract L" and "uniform_contract L" and "well_shaped X"
  shows "add_irrelevant_features L X y 0 s = Inr ((X, y), s) \<and>
         (0 < r \<and> r < 1 \<and> add_irrelevant_features L X y r s = Inr ((X', y'), s') \<longrightarrow>
            y' = y \<and> shape0 X' = shape0 X \<and>
            (\<exists>noise_dim. noise_dim_of r (shape1 X) = Inr noise_dim \<and> 0 \<le> noise_dim \<and>
               int (shape1 X') = int (shape1 X) + noise_dim) \<and>
            (\<exists>perm. length perm = shape1 X' \<and> distinct perm \<and> set perm = {0..<shape1 X'} \<and>
               (\<forall>p < shape1 X'.
                  (perm ! p < shape1 X \<longrightarrow> column X' p = column X (perm ! p)) \<and>
                  (shape1 X \<le> perm ! p \<longrightarrow>
                     (\<exists>src < shape1 X.
                        \<forall>v \<in> set (column X' p).
                          Min (set (column X src)) \<le> v \<and> v \<le> Max (set (column X src)))))))"
proof (intro conjI impI)
  show "add_irrelevant_features L X y 0 s = Inr ((X, y), s)"
    by (simp add: add_irrelevant_features_def)
next
  assume "0 < r \<and> r < 1 \<and> add_irrelevant_features L X y r s = Inr ((X', y'), s')"
  then have r: "0 < r" "r < 1" and
    run: "add_irrelevant_features L X y r s = Inr ((X', y'), s')"
    by simp_all
  let ?d = "shape1 X"
  from run r(1) obtain nd where
    nd: "noise_dim_of r ?d = Inr nd" and
    rest: "(if 0 < nd then
              and_then (noise_columns L X (nat nd) s) (\<lambda>(X_noise, s1).
              and_then (np_hstack (shape0 X) X_noise) (\<lambda>N.
              and_then (np_concatenate1 X N) (\<lambda>X1.
              and_then (random_choice L [0..<shape1 X1] (int (shape1 X1)) False s1)
                (\<lambda>(idx, s2).
              and_then (np_take_cols X1 idx) (\<lambda>X2.
                Inr ((X2, y), s2))))))
            else Inr ((X, y), s)) = Inr ((X', y'), s')"
    by (auto simp: add_irrelevant_features_def and_then_eq_Inr)
  have nonneg: "0 \<le> nd"
    by (rule noise_dim_nonneg [OF r nd])
  from irrelevant_features_rows [OF run] show "y' = y" and "shape0 X' = shape0 X"
    by simp_all
  have main:
    "int (shape1 X') = int ?d + nd \<and>
     (\<exists>perm. length perm = shape1 X' \<and> distinct perm \<and> set perm = {0..<shape1 X'} \<and>
        (\<forall>p < shape1 X'.
           (perm ! p < ?d \<longrightarrow> column X' p = column X (perm ! p)) \<and>
           (?d \<le> perm ! p \<longrightarrow>
              (\<exists>src < ?d.
                 \<forall>v \<in> set (column X' p).
                   Min (set (column X src)) \<le> v \<and> v \<le> Max (set (column X src))))))"
  proof (cases "0 < nd")
    case False
    with nonneg have zero: "nd = 0" by simp
    with rest have X': "X' = X"
      by simp
    have "length [0..<?d] = ?d \<and> distinct [0..<?d] \<and> set [0..<?d] = {0..<?d} \<and>
          (\<forall>p < ?d. ([0..<?d] ! p < ?d \<longrightarrow> column X p = column X ([0..<?d] ! p)) \<and>
             (?d \<le> [0..<?d] ! p \<longrightarrow>
                (\<exists>src < ?d.
                   \<forall>v \<in> set (column X p).
                     Min (set (column X src)) \<le> v \<and> v \<le> Max (set (column X src)))))"
      by simp
    then show ?thesis
      unfolding X' zero by (intro conjI exI [of _ "[0..<?d]"]) simp_all
  next
    case True
    let ?k = "nat nd"
    from True rest obtain cols s1 N X1 idx s2 where
      noise: "noise_columns L X ?k s = Inr (cols, s1)" and
      hstack: "np_hstack (shape0 X) cols = Inr N" and
      cat: "np_concatenate1 X N = Inr X1" and
      ch: "random_choice L [0..<shape1 X1] (int (shape1 X1)) False s1 = Inr (idx, s2)" and
      take: "np_take_cols X1 idx = Inr X'"
      by (auto simp: and_then_eq_Inr)
    from noise_columns_spec [OF assms(1,2) noise] have
      len: "length cols = ?k" and
      spec: "\<And>col. col \<in> set cols \<Longrightarrow>
               length col = shape0 X \<and>
               (\<exists>src < ?d.
                  \<forall>v \<in> set col. Min (set (column X src)) \<le> v \<and> v \<le> Max (set (column X src)))"
      by blast+
    from hstack have N: "N = from_columns (shape0 X) cols"
      by (auto simp: np_hstack_def split: if_splits)
    from cat have m: "shape1 X1 = ?d + ?k"
      by (auto simp: np_concatenate1_def shape1_def N from_columns_def len split: if_splits)
    from choice_permutation [OF assms(1) ch] have
      perm: "length idx = ?d + ?k" "distinct idx" "set idx = {0..<?d + ?k}"
      by (simp_all add: m)
    from take have cols': "shape1 X' = ?d + ?k"
      by (auto simp: np_take_cols_def shape1_def perm(1) split: if_splits)
    have count: "int (shape1 X') = int ?d + nd"
      using True by (simp add: cols')
    have old: "column X' p = column X (idx ! p)" if "p < ?d + ?k" "idx ! p < ?d" for p
      using column_take_cols [OF take, of p] column_concatenate1 [OF cat assms(3), of "idx ! p"]
        that perm(1) by simp
    have new: "\<exists>src < ?d. \<forall>v \<in> set (column X' p).
                 Min (set (column X src)) \<le> v \<and> v \<le> Max (set (column X src))"
      if "p < ?d + ?k" "?d \<le> idx ! p" for p
    proof -
      from that(1) perm(1,3) have "idx ! p < ?d + ?k"
        by (metis atLeastLessThan_iff nth_mem)
      with that(2) have k: "idx ! p - ?d < length cols"
        by (simp add: len)
      then have mem: "cols ! (idx ! p - ?d) \<in> set cols"
        by simp
      from spec [OF mem] have "length (cols ! (idx ! p - ?d)) = shape0 X"
        by simp
      with k have "column N (idx ! p - ?d) = cols ! (idx ! p - ?d)"
        unfolding N by (intro column_from_columns)
      with column_take_cols [OF take, of p] column_concatenate1 [OF cat assms(3), of "idx ! p"]
        that perm(1)
      have "column X' p = cols ! (idx ! p - ?d)"
        by simp
      with spec [OF mem] show ?thesis by simp
    qed
    from perm old new have
      "\<exists>perm. length perm = shape1 X' \<and> distinct perm \<and> set perm = {0..<shape1 X'} \<and>
         (\<forall>p < shape1 X'.
            (perm ! p < ?d \<longrightarrow> column X' p = column X (perm ! p)) \<and>
            (?d \<le> perm ! p \<longrightarrow>
               (\<exists>src < ?d.
                  \<forall>v \<in> set (column X' p).
                    Min (set (column X src)) \<le> v \<and> v \<le> Max (set (column X src)))))"
      unfolding cols' by (intro exI [of _ idx]) simp_all
    with count show ?thesis by (rule conjI)
  qed
  with nd nonneg show
    "\<exists>noise_dim. noise_dim_of r ?d = Inr noise_dim \<and> 0 \<le> noise_dim \<and>
       int (shape1 X') = int ?d + noise_dim"
    by blast
  from main show
    "\<exists>perm. length perm = shape1 X' \<and> distinct perm \<and> set perm = {0..<shape1 X'} \<and>
       (\<forall>p < shape1 X'.
          (perm ! p < ?d \<longrightarrow> column X' p = column X (perm ! p)) \<and>
          (?d \<le> perm ! p \<longrightarrow>
             (\<exists>src < ?d.
                \<forall>v \<in> set (column X' p).
                  Min (set (column X src)) \<le> v \<and> v \<le> Max (set (column X src)))))"
    by blast
qed

theorem add_irrelevant_features_columns_witness:
  "choice_contract stub_library \<and> uniform_contract stub_library \<and> well_shaped toy_X \<and>
   (0 :: real) < 1 / 2 \<and> (1 / 2 :: real) < 1 \<and>
   add_irrelevant_features stub_library toy_X toy_y 0 0 = Inr ((toy_X, toy_y), 0) \<and>
   add_irrelevant_features stub_library toy_X toy_y (1 / 2) 0 = Inr ((toy_noisy_X, toy_y), 3) \<and>
   shape0 toy_noisy_X = shape0 toy_X \<and>
   noise_dim_of (1 / 2) (shape1 toy_X) = Inr 1 \<and>
   (\<exists>noise_dim. noise_dim_of (1 / 2) (shape1 toy_X) = Inr noise_dim \<and> 0 \<le> noise_dim \<and>
      int (shape1 toy_noisy_X) = int (shape1 toy_X) + noise_dim) \<and>
   (\<exists>perm. length perm = shape1 toy_noisy_X \<and> distinct perm \<and>
      set perm = {0..<shape1 toy_noisy_X} \<and>
      (\<forall>p < shape1 toy_noisy_X.
         (perm ! p < shape1 toy_X \<longrightarrow> column toy_noisy_X p = column toy_X (perm ! p)) \<and>
         (shape1 toy_X \<le> perm ! p \<longrightarrow>
            (\<exists>src < shape1 toy_X.
               \<forall>v \<in> set (column toy_noisy_X p).
                 Min (set (column toy_X src)) \<le> v \<and> v \<le> Max (set (column toy_X src))))))"
proof -
  have ws: "well_shaped toy_X"
    by code_simp
  have r: "(0 :: real) < 1 / 2" "(1 / 2 :: real) < 1"
    by simp_all
  have run:
    "add_irrelevant_features stub_library toy_X toy_y (1 / 2) 0 = Inr ((toy_noisy_X, toy_y), 3)"
    by code_simp
  have nd: "noise_dim_of (1 / 2) (shape1 toy_X) = Inr 1"
    by code_simp
  note inst = add_irrelevant_features_columns [OF stub_choice_contract stub_uniform_contract ws,
      of toy_y 0 "1 / 2" toy_noisy_X toy_y 3]
  from inst have "add_irrelevant_features stub_library toy_X toy_y 0 0 = Inr ((toy_X, toy_y), 0)"
    by (rule conjunct1)
  moreover from inst r run have
    "toy_y = toy_y \<and> shape0 toy_noisy_X = shape0 toy_X \<and>
     (\<exists>noise_dim. noise_dim_of (1 / 2) (shape1 toy_X) = Inr noise_dim \<and> 0 \<le> noise_dim \<and>
        int (shape1 toy_noisy_X) = int (shape1 toy_X) + noise_dim) \<and>
     (\<exists>perm. length perm = shape1 toy_noisy_X \<and> distinct perm \<and>
        set perm = {0..<shape1 toy_noisy_X} \<and>
        (\<forall>p < shape1 toy_noisy_X.
           (perm ! p < shape1 toy_X \<longrightarrow> column toy_noisy_X p = column toy_X (perm ! p)) \<and>
           (shape1 toy_X \<le> perm ! p \<longrightarrow>
              (\<exists>src < shape1 toy_X.
                 \<forall>v \<in> set (column toy_noisy_X p).
                   Min (set (column toy_X src)) \<le> v \<and> v \<le> Max (set (column toy_X src))))))"
    by blast
  ultimately show ?thesis
    using stub_choice_contract stub_uniform_contract ws r run nd by blast
qed

text \<open>
  C8 as stated fails inside \<open>0 < r < 1\<close>. For the double \<open>r = 0.24999999999999997\<close>
  and \<open>d = 3\<close> columns, \<open>d + \<lfloor>r / (1 - r) * d\<rfloor> = 3\<close>, but line 171 computes the
  noise dimension 1 in double precision and the returned matrix has 4 columns.
\<close>

theorem add_irrelevant_features_counterexample:
  "is_double below_quarter \<and> 0 < below_quarter \<and> below_quarter < 1 \<and>
   add_irrelevant_features stub_library wide_X [0, 1] below_quarter 0 =
     Inr ((wide_noisy_X, [0, 1]), 3) \<and>
   int (shape1 wide_X) + \<lfloor>below_quarter / (1 - below_quarter) * real (shape1 wide_X)\<rfloor> = 3 \<and>
   shape1 wide_noisy_X = 4"
proof -
  have "is_double below_quarter"
    by code_simp
  moreover have "0 < below_quarter" "below_quarter < 1"
    by (simp_all add: below_quarter_def)
  moreover have
    "add_irrelevant_features stub_library wide_X [0, 1] below_quarter 0 =
       Inr ((wide_noisy_X, [0, 1]), 3)"
    by code_simp
  moreover have
    "int (shape1 wide_X) + \<lfloor>below_quarter / (1 - below_quarter) * real (shape1 wide_X)\<rfloor> = 3"
    by (simp add: below_quarter_def wide_X_def shape1_def)
  moreover have "shape1 wide_noisy_X = 4"
    by (simp add: wide_noisy_X_def shape1_def)
  ultimately show ?thesis by simp
qed

end
